theory Spec2Isabelle
  imports Complex_Main
begin

section \<open>The route engine of the earthquake evacuation system\<close>

text \<open>
  A shallow embedding of \<^verbatim>\<open>RouteCalculationEngine\<close> (the route engine required by
  \<^verbatim>\<open>backend/server.js\<close> as \<^verbatim>\<open>./core/route-engine\<close>) and of the session handling
  of \<^verbatim>\<open>EarthquakeEvacuationServer\<close>.

  Numbers. A JavaScript number is modelled as an exact \<^typ>\<open>real\<close>: rounding, \<^verbatim>\<open>NaN\<close>
  and the infinities of IEEE arithmetic have no counterpart here. \<^verbatim>\<open>Math.log10\<close> is
  \<open>log 10\<close>; for an argument that is not positive JavaScript gives \<^verbatim>\<open>-Infinity\<close> or
  \<^verbatim>\<open>NaN\<close> and \<open>log 10\<close> some real number, so the statements on the value of the
  seismic risk are made for snapshots in which it does not arise (\<open>attenuationDefined\<close>
  below).

  Objects. A value of the city graph is modelled by the record \<open>entry\<close>, which has every
  property the engine reads or writes on a graph value (the engine stores nodes and edges
  in one \<^verbatim>\<open>Map\<close> and tells a node by \<^verbatim>\<open>type === 'node'\<close>). A property that a
  JavaScript object lacks (it reads as \<^verbatim>\<open>undefined\<close>) has no counterpart: in the model
  every entry has a value for every field. Every key of the graph holds an object of its own
  (no object is stored under two keys).

  Library calls. \<^verbatim>\<open>turf.distance\<close> is not part of the repository; every function that
  calls it takes the distance in kilometres as its first argument \<open>d\<close>, a function of two
  (longitude, latitude) points. The distance in metres is \<open>1000 * d p q\<close>.
\<close>

subsection \<open>Data\<close>

type_synonym point = "real \<times> real"  \<comment> \<open>\<^verbatim>\<open>[lng, lat]\<close>\<close>

type_synonym distance = "point \<Rightarrow> point \<Rightarrow> real"

record location =
  loc_lat :: real
  loc_lng :: real

record entry =
  etype :: string
  eid :: string
  lat :: real
  lng :: real
  neighbors :: "string list"
  startLat :: real
  startLng :: real
  baseDistance :: real
  weight :: real

text \<open>An earthquake feature: \<^verbatim>\<open>geometry.coordinates = [lng, lat, depth]\<close>,
  \<^verbatim>\<open>properties.mag\<close>, \<^verbatim>\<open>properties.time\<close> (milliseconds).\<close>

record earthquake =
  eq_lng :: real
  eq_lat :: real
  eq_depth :: real
  mag :: real
  time :: real

text \<open>The seismic snapshot. \<open>None\<close> for the whole snapshot is \<^verbatim>\<open>null\<close> or
  \<^verbatim>\<open>undefined\<close>; \<open>features = None\<close> is a snapshot object without a
  \<^verbatim>\<open>features\<close> property.\<close>

record seismic_data =
  features :: "earthquake list option"

record hazard =
  htype :: string

record structural_data =
  averageAge :: real
  constructionType :: string
  previousDamage :: bool

type_synonym graph = "(string \<times> entry) list"  \<comment> \<open>a \<^verbatim>\<open>Map\<close>, in insertion order\<close>

record engine =
  cityGraph :: graph
  safeZones :: "location list"
  hazardMap :: "string \<rightharpoonup> hazard list"
  crowdDensityMap :: "string \<rightharpoonup> real"
  structuralRiskMap :: "string \<rightharpoonup> structural_data"
  seismicData :: "seismic_data option"

subsection \<open>Risk model\<close>

text \<open>\<^verbatim>\<open>calculateShindoIntensity(magnitude, distance, depth)\<close>\<close>

definition calculateShindoIntensity :: "real \<Rightarrow> real \<Rightarrow> real \<Rightarrow> real" where
  "calculateShindoIntensity magnitude km depth =
     (let attenuationFactor = log 10 (km + depth);
          intensity = magnitude - 3.0 * attenuationFactor + 3.0
      in max 0 (min 7 intensity))"

text \<open>The loop body of \<^verbatim>\<open>calculateSeismicRisk\<close>: the risk of one earthquake.\<close>

definition earthquakeRisk :: "distance \<Rightarrow> entry \<Rightarrow> earthquake \<Rightarrow> real" where
  "earthquakeRisk d edge q =
     (let km = d (startLng edge, startLat edge) (eq_lng q, eq_lat q);
          intensity = calculateShindoIntensity (mag q) km (eq_depth q)
      in min (intensity / 7.0) 1.0)"

text \<open>\<^verbatim>\<open>calculateSeismicRisk(edge, seismicData)\<close>: \<^verbatim>\<open>maxRisk\<close> starts at 0 and is
  raised by every earthquake in turn.\<close>

definition calculateSeismicRisk :: "distance \<Rightarrow> entry \<Rightarrow> seismic_data option \<Rightarrow> real" where
  "calculateSeismicRisk d edge sd =
     (case sd of
        None \<Rightarrow> 0.1
      | Some s \<Rightarrow>
          (case features s of
             None \<Rightarrow> 0.1
           | Some fs \<Rightarrow> foldl (\<lambda>maxRisk q. max maxRisk (earthquakeRisk d edge q)) 0 fs))"

text \<open>\<^verbatim>\<open>calculateStructuralRisk(edge)\<close>\<close>

definition calculateStructuralRisk :: "engine \<Rightarrow> entry \<Rightarrow> real" where
  "calculateStructuralRisk e edge =
     (case structuralRiskMap e (eid edge) of
        None \<Rightarrow> 0.2
      | Some sd \<Rightarrow>
          (let ageRisk = (if averageAge sd > 50 then 0.7 else 0.3);
               constructionRisk =
                 (if constructionType sd = ''unreinforced_masonry'' then 0.9 else 0.2);
               damageRisk = (if previousDamage sd then 0.8 else 0.1)
           in min ((ageRisk + constructionRisk + damageRisk) / 3) 1.0))"

text \<open>\<^verbatim>\<open>getCrowdDensity(edge)\<close>: a missing density counts as 0.\<close>

definition getCrowdDensity :: "engine \<Rightarrow> entry \<Rightarrow> real" where
  "getCrowdDensity e edge =
     (let density = (case crowdDensityMap e (eid edge) of None \<Rightarrow> 0 | Some x \<Rightarrow> x)
      in min (density / 1000.0) 1.0)"

text \<open>\<^verbatim>\<open>getHazardReports(edge)\<close>: the \<^verbatim>\<open>switch\<close> on the hazard type, then the sum
  from 0 over the reports of the edge, capped at 1.\<close>

definition hazardScore :: "hazard \<Rightarrow> real" where
  "hazardScore h =
     (if htype h = ''building_collapse'' then 0.9
      else if htype h = ''fire'' then 0.7
      else if htype h = ''debris'' then 0.5
      else if htype h = ''gas_leak'' then 0.8
      else 0.3)"

definition getHazardReports :: "engine \<Rightarrow> entry \<Rightarrow> real" where
  "getHazardReports e edge =
     (let hazards = (case hazardMap e (eid edge) of None \<Rightarrow> [] | Some hs \<Rightarrow> hs);
          riskScore = foldl (\<lambda>riskScore h. riskScore + hazardScore h) 0 hazards
      in min riskScore 1.0)"

text \<open>The loop body of \<^verbatim>\<open>updateEdgeWeights\<close>: the weight written to one entry.\<close>

definition edgeWeight :: "distance \<Rightarrow> engine \<Rightarrow> entry \<Rightarrow> real" where
  "edgeWeight d e edge =
     (let seismicRisk = calculateSeismicRisk d edge (seismicData e);
          structuralRisk = calculateStructuralRisk e edge;
          crowdDensity = getCrowdDensity e edge;
          hazardReports = getHazardReports e edge;
          w = (0.4 * seismicRisk + 0.3 * structuralRisk + 0.2 * crowdDensity
               + 0.1 * hazardReports);
          w' = w + baseDistance edge * 0.1
      in if seismicRisk > 0.8 \<or> structuralRisk > 0.9 then w' * 3.0 else w')"

text \<open>\<^verbatim>\<open>updateEdgeWeights(graph)\<close> visits every value of the map, whatever its type, and
  assigns its \<^verbatim>\<open>weight\<close>.\<close>

definition updateEdgeWeights :: "distance \<Rightarrow> engine \<Rightarrow> graph \<Rightarrow> graph" where
  "updateEdgeWeights d e g = map (\<lambda>(k, edge). (k, edge\<lparr>weight := edgeWeight d e edge\<rparr>)) g"

subsection \<open>Graph access\<close>

datatype error =
    NoSafeZones   \<comment> \<open>\<^verbatim>\<open>Error('No safe zones available')\<close>\<close>
  | NoPathFound   \<comment> \<open>\<^verbatim>\<open>Error('No path found to safe zone')\<close>\<close>
  | TypeError     \<comment> \<open>a property read on \<^verbatim>\<open>null\<close> or \<^verbatim>\<open>undefined\<close>\<close>
  | NotANumber    \<comment> \<open>see \<open>relax\<close>\<close>

text \<open>\<^verbatim>\<open>getNode(nodeId)\<close> and \<^verbatim>\<open>getEdge(fromId, toId)\<close>: the second key is tried when
  the first one is absent.\<close>

definition getNode :: "graph \<Rightarrow> string \<Rightarrow> entry option" where
  "getNode g nodeId = map_of g nodeId"

definition edgeKey :: "string \<Rightarrow> string \<Rightarrow> string" where
  "edgeKey fromId toId = fromId @ ''-'' @ toId"

definition getEdge :: "graph \<Rightarrow> string \<Rightarrow> string \<Rightarrow> entry option" where
  "getEdge g fromId toId =
     (case map_of g (edgeKey fromId toId) of
        Some edge \<Rightarrow> Some edge
      | None \<Rightarrow> map_of g (edgeKey toId fromId))"

text \<open>\<^verbatim>\<open>findNearestNode(location)\<close>: a scan in insertion order over the values with
  \<^verbatim>\<open>type === 'node'\<close>, in metres; \<^verbatim>\<open>minDistance\<close> starts at \<^verbatim>\<open>Infinity\<close>, which
  is the accumulator \<open>None\<close> (every distance is below it), and only a strictly smaller
  distance replaces the nearest node found so far.\<close>

definition nearerNode :: "distance \<Rightarrow> location \<Rightarrow> (entry \<times> real) option \<Rightarrow> string \<times> entry
    \<Rightarrow> (entry \<times> real) option" where
  "nearerNode d loc nearest kv =
     (let node = snd kv in
      if etype node = ''node'' then
        (let m = 1000 * d (loc_lng loc, loc_lat loc) (lng node, lat node) in
         case nearest of
           None \<Rightarrow> Some (node, m)
         | Some (n, minDistance) \<Rightarrow> if m < minDistance then Some (node, m) else nearest)
      else nearest)"

definition findNearestNode :: "distance \<Rightarrow> graph \<Rightarrow> location \<Rightarrow> entry option" where
  "findNearestNode d g loc = map_option fst (foldl (nearerNode d loc) None g)"

text \<open>\<^verbatim>\<open>findNearestSafeZone(userLocation)\<close>: the same scan over the safe zones, in
  kilometres.\<close>

definition nearerZone :: "distance \<Rightarrow> location \<Rightarrow> (location \<times> real) option \<Rightarrow> location
    \<Rightarrow> (location \<times> real) option" where
  "nearerZone d loc nearest safeZone =
     (let km = d (loc_lng loc, loc_lat loc) (loc_lng safeZone, loc_lat safeZone) in
      case nearest of
        None \<Rightarrow> Some (safeZone, km)
      | Some (z, minDistance) \<Rightarrow> if km < minDistance then Some (safeZone, km) else nearest)"

definition findNearestSafeZone :: "distance \<Rightarrow> engine \<Rightarrow> location \<Rightarrow> location option" where
  "findNearestSafeZone d e userLocation =
     map_option fst (foldl (nearerZone d userLocation) None (safeZones e))"

text \<open>\<^verbatim>\<open>heuristic(nodeA, nodeB)\<close>\<close>

definition heuristic :: "distance \<Rightarrow> entry \<Rightarrow> entry \<Rightarrow> real" where
  "heuristic d nodeA nodeB = d (lng nodeA, lat nodeA) (lng nodeB, lat nodeB)"

subsection \<open>The open set\<close>

text \<open>
  Modelled from the spec: the \<^verbatim>\<open>PriorityQueue\<close> behind \<^verbatim>\<open>openSet\<close>. The engine takes it
  from the package \<^verbatim>\<open>heap\<close>, which is not part of the repository, and uses
  \<^verbatim>\<open>push\<close>, \<^verbatim>\<open>pop\<close>, \<^verbatim>\<open>length\<close> and \<^verbatim>\<open>some\<close> of it, with the comparator
  \<^verbatim>\<open>a.fScore - b.fScore\<close>. Following the specification (``open set ordered by f'',
  ``ties in f are broken by insertion order''), the queue is the list of its items in
  insertion order, and \<open>pq_pop\<close> takes out the first item of least \<^verbatim>\<open>fScore\<close>. An item
  keeps the \<^verbatim>\<open>fScore\<close> it was pushed with.
\<close>

type_synonym qitem = "entry \<times> real"  \<comment> \<open>\<^verbatim>\<open>{node, fScore}\<close>\<close>

definition pq_push :: "qitem list \<Rightarrow> qitem \<Rightarrow> qitem list" where
  "pq_push q item = q @ [item]"

fun pq_first_min :: "qitem \<Rightarrow> qitem list \<Rightarrow> qitem" where
  "pq_first_min m [] = m"
| "pq_first_min m (x # xs) = pq_first_min (if snd x < snd m then x else m) xs"

definition pq_pop :: "qitem list \<Rightarrow> (qitem \<times> qitem list) option" where
  "pq_pop q =
     (case q of
        [] \<Rightarrow> None
      | x # xs \<Rightarrow> (let m = pq_first_min x xs in Some (m, remove1 m q)))"

definition pq_some_id :: "qitem list \<Rightarrow> string \<Rightarrow> bool" where
  "pq_some_id q nodeId = list_ex (\<lambda>item. eid (fst item) = nodeId) q"

subsection \<open>A* search\<close>

record astate =
  openSet :: "qitem list"
  closedSet :: "string set"
  gScore :: "string \<rightharpoonup> real"
  fScore :: "string \<rightharpoonup> real"
  cameFrom :: "string \<rightharpoonup> string"

text \<open>
  The \<^verbatim>\<open>for\<close> loop over \<^verbatim>\<open>current.neighbors\<close> in \<^verbatim>\<open>aStarAlgorithm\<close>.
  \<^verbatim>\<open>edge.weight\<close> on a missing edge and \<^verbatim>\<open>neighbor.lng\<close> on a missing node raise a
  \<^verbatim>\<open>TypeError\<close>. When \<^verbatim>\<open>gScore\<close> has no value for \<^verbatim>\<open>current.id\<close>, the JavaScript sum is
  \<^verbatim>\<open>NaN\<close> and the search goes on with it; the model stops there with \<open>NotANumber\<close>.
  Every node that enters the open set was given a \<^verbatim>\<open>gScore\<close> under the key it was looked
  up with, so this arises only for a node stored under a key that is not its \<^verbatim>\<open>id\<close>.
\<close>

fun relax :: "distance \<Rightarrow> graph \<Rightarrow> entry \<Rightarrow> entry \<Rightarrow> string list \<Rightarrow> astate \<Rightarrow> error + astate" where
  "relax d g current goalNode [] st = Inr st"
| "relax d g current goalNode (neighborId # rest) st =
     (if neighborId \<in> closedSet st then relax d g current goalNode rest st
      else
        (case getEdge g (eid current) neighborId of
           None \<Rightarrow> Inl TypeError
         | Some edge \<Rightarrow>
             (case gScore st (eid current) of
                None \<Rightarrow> Inl NotANumber
              | Some gCurrent \<Rightarrow>
                  (let tentativeGScore = gCurrent + weight edge in
                   if (case gScore st neighborId of None \<Rightarrow> True | Some gn \<Rightarrow> tentativeGScore < gn)
                   then
                     (case getNode g neighborId of
                        None \<Rightarrow> Inl TypeError
                      | Some neighbor \<Rightarrow>
                          (let f = tentativeGScore + heuristic d neighbor goalNode;
                               st1 = st\<lparr>cameFrom := (cameFrom st)(neighborId \<mapsto> eid current),
                                        gScore := (gScore st)(neighborId \<mapsto> tentativeGScore),
                                        fScore := (fScore st)(neighborId \<mapsto> f)\<rparr>;
                               st2 = (if \<not> pq_some_id (openSet st1) neighborId
                                      then st1\<lparr>openSet := pq_push (openSet st1) (neighbor, f)\<rparr>
                                      else st1)
                           in relax d g current goalNode rest st2))
                   else relax d g current goalNode rest st))))"

text \<open>\<^verbatim>\<open>reconstructPath(cameFrom, current)\<close>: the \<^verbatim>\<open>while\<close> loop follows \<^verbatim>\<open>cameFrom\<close> and
  puts each node in front of the path; on a cyclic \<^verbatim>\<open>cameFrom\<close> it does not return
  (the value \<open>None\<close>).\<close>

partial_function (option) reconstructLoop ::
    "graph \<Rightarrow> (string \<rightharpoonup> string) \<Rightarrow> entry \<Rightarrow> entry list \<Rightarrow> (error + entry list) option" where
  "reconstructLoop g came current path =
     (case came (eid current) of
        None \<Rightarrow> Some (Inr path)
      | Some prev \<Rightarrow>
          (case getNode g prev of
             None \<Rightarrow> Some (Inl TypeError)
           | Some c \<Rightarrow> reconstructLoop g came c (c # path)))"

definition reconstructPath ::
    "graph \<Rightarrow> (string \<rightharpoonup> string) \<Rightarrow> entry \<Rightarrow> (error + entry list) option" where
  "reconstructPath g came current = reconstructLoop g came current [current]"

text \<open>The \<^verbatim>\<open>while (openSet.length > 0)\<close> loop of \<^verbatim>\<open>aStarAlgorithm\<close>; leaving it is
  \<^verbatim>\<open>Error('No path found to safe zone')\<close>.\<close>

partial_function (option) aStarLoop ::
    "distance \<Rightarrow> graph \<Rightarrow> entry \<Rightarrow> astate \<Rightarrow> (error + entry list) option" where
  "aStarLoop d g goalNode st =
     (case pq_pop (openSet st) of
        None \<Rightarrow> Some (Inl NoPathFound)
      | Some (item, rest) \<Rightarrow>
          (let current = fst item in
           if eid current = eid goalNode then reconstructPath g (cameFrom st) current
           else
             (case relax d g current goalNode (neighbors current)
                     (st\<lparr>openSet := rest, closedSet := insert (eid current) (closedSet st)\<rparr>) of
                Inl err \<Rightarrow> Some (Inl err)
              | Inr st' \<Rightarrow> aStarLoop d g goalNode st')))"

text \<open>\<^verbatim>\<open>aStarAlgorithm(start, goal, graph)\<close>. The method reads nodes and edges through
  \<^verbatim>\<open>this.cityGraph\<close>; its parameter \<^verbatim>\<open>graph\<close> is not used in its body. With no node in the
  graph \<^verbatim>\<open>startNode\<close> is \<^verbatim>\<open>null\<close> and \<^verbatim>\<open>startNode.id\<close> raises.\<close>

definition aStarAlgorithm ::
    "distance \<Rightarrow> engine \<Rightarrow> location \<Rightarrow> location \<Rightarrow> (error + entry list) option" where
  "aStarAlgorithm d e start goal =
     (case findNearestNode d (cityGraph e) start of
        None \<Rightarrow> Some (Inl TypeError)
      | Some startNode \<Rightarrow>
          (case findNearestNode d (cityGraph e) goal of
             None \<Rightarrow> Some (Inl TypeError)
           | Some goalNode \<Rightarrow>
               (let h = heuristic d startNode goalNode in
                aStarLoop d (cityGraph e) goalNode
                  \<lparr>openSet = pq_push [] (startNode, h),
                   closedSet = {},
                   gScore = [eid startNode \<mapsto> 0],
                   fScore = [eid startNode \<mapsto> h],
                   cameFrom = Map.empty\<rparr>)))"

subsection \<open>Route summary\<close>

text \<open>\<^verbatim>\<open>calculateEstimatedTime(route)\<close>: the segment lengths in metres at 1.4 m/s, in whole
  minutes rounded up.\<close>

fun totalTime :: "distance \<Rightarrow> entry list \<Rightarrow> real" where
  "totalTime d (a # b # rest) =
     (1000 * d (lng a, lat a) (lng b, lat b)) / 1.4 + totalTime d (b # rest)"
| "totalTime d _ = 0"

definition calculateEstimatedTime :: "distance \<Rightarrow> entry list \<Rightarrow> int" where
  "calculateEstimatedTime d route = \<lceil>totalTime d route / 60\<rceil>"

text \<open>\<^verbatim>\<open>calculateRouteRiskLevel(route)\<close>: only the key \<^verbatim>\<open>from-to\<close> is looked up here. The
  pair is (\<^verbatim>\<open>totalRisk\<close>, \<^verbatim>\<open>segmentCount\<close>).\<close>

fun routeRisk :: "graph \<Rightarrow> entry list \<Rightarrow> real \<times> nat \<Rightarrow> real \<times> nat" where
  "routeRisk g (a # b # rest) acc =
     routeRisk g (b # rest)
       (case map_of g (edgeKey (eid a) (eid b)) of
          Some edge \<Rightarrow> (fst acc + weight edge, Suc (snd acc))
        | None \<Rightarrow> acc)"
| "routeRisk g _ acc = acc"

definition calculateRouteRiskLevel :: "engine \<Rightarrow> entry list \<Rightarrow> string" where
  "calculateRouteRiskLevel e route =
     (let (totalRisk, segmentCount) = routeRisk (cityGraph e) route (0, 0);
          averageRisk = (if segmentCount > 0 then totalRisk / real segmentCount else 0.5)
      in if averageRisk < 0.3 then ''LOW''
         else if averageRisk < 0.6 then ''MODERATE''
         else if averageRisk < 0.8 then ''HIGH''
         else ''CRITICAL'')"

subsection \<open>Alternative routes\<close>

text \<open>\<^verbatim>\<open>edge.weight *= 2.0\<close> on the value stored under a key, if there is one.\<close>

fun doubleWeight :: "string \<Rightarrow> graph \<Rightarrow> graph" where
  "doubleWeight k [] = []"
| "doubleWeight k ((k', edge) # rest) =
     (if k = k' then (k', edge\<lparr>weight := weight edge * 2.0\<rparr>) # rest
      else (k', edge) # doubleWeight k rest)"

text \<open>\<^verbatim>\<open>penalizePreviousRoutes(graph, routes)\<close>: for every route, for every pair of
  consecutive nodes, the edge under the key \<^verbatim>\<open>from-to\<close>.\<close>

fun penalizeRoute :: "graph \<Rightarrow> entry list \<Rightarrow> graph" where
  "penalizeRoute g (a # b # rest) =
     penalizeRoute (doubleWeight (edgeKey (eid a) (eid b)) g) (b # rest)"
| "penalizeRoute g _ = g"

definition penalizePreviousRoutes :: "graph \<Rightarrow> entry list list \<Rightarrow> graph" where
  "penalizePreviousRoutes g routes = foldl penalizeRoute g routes"

text \<open>The \<^verbatim>\<open>for\<close> loop of \<^verbatim>\<open>generateAlternativeRoutes\<close>, with the number of rounds left.
  The graph that is penalised is the engine's own \<^verbatim>\<open>cityGraph\<close>. An error of the search
  is caught and ends the loop.\<close>

fun alternativesLoop :: "distance \<Rightarrow> location \<Rightarrow> location \<Rightarrow> entry list \<Rightarrow> nat \<Rightarrow> engine
    \<Rightarrow> entry list list \<Rightarrow> (entry list list \<times> engine) option" where
  "alternativesLoop d start goal primaryRoute 0 e alternatives = Some (alternatives, e)"
| "alternativesLoop d start goal primaryRoute (Suc n) e alternatives =
     (let e' = e\<lparr>cityGraph :=
                  penalizePreviousRoutes (cityGraph e) (primaryRoute # alternatives)\<rparr>
      in case aStarAlgorithm d e' start goal of
           None \<Rightarrow> None
         | Some (Inl err) \<Rightarrow> Some (alternatives, e')
         | Some (Inr altRoute) \<Rightarrow>
             alternativesLoop d start goal primaryRoute n e' (alternatives @ [altRoute]))"

text \<open>\<^verbatim>\<open>generateAlternativeRoutes(start, goal, graph, count)\<close>: the first search is outside
  the \<^verbatim>\<open>try\<close>.\<close>

definition generateAlternativeRoutes :: "distance \<Rightarrow> engine \<Rightarrow> location \<Rightarrow> location \<Rightarrow> nat
    \<Rightarrow> ((error + entry list list) \<times> engine) option" where
  "generateAlternativeRoutes d e start goal count =
     (case aStarAlgorithm d e start goal of
        None \<Rightarrow> None
      | Some (Inl err) \<Rightarrow> Some (Inl err, e)
      | Some (Inr primaryRoute) \<Rightarrow>
          (case alternativesLoop d start goal primaryRoute count e [] of
             None \<Rightarrow> None
           | Some (alternatives, e') \<Rightarrow> Some (Inr alternatives, e')))"

subsection \<open>The calculation\<close>

record route_result =
  route :: "entry list"
  estimatedTime :: int
  riskLevel :: string
  alternativeRoutes :: "entry list list"

text \<open>\<^verbatim>\<open>calculateSafeRoute(userLocation, seismicData, hazardMap)\<close>. The result comes with
  the engine as the call leaves it, also when the call raises. \<^verbatim>\<open>loadCityGraph()\<close> returns
  \<^verbatim>\<open>this.cityGraph\<close> itself. The properties of the returned object are evaluated in the
  order they are written: the risk level before the alternative routes.\<close>

definition calculateSafeRoute :: "distance \<Rightarrow> engine \<Rightarrow> location \<Rightarrow> seismic_data option
    \<Rightarrow> (string \<rightharpoonup> hazard list) \<Rightarrow> ((error + route_result) \<times> engine) option" where
  "calculateSafeRoute d e userLocation sd hm =
     (let e1 = e\<lparr>seismicData := sd, hazardMap := hm\<rparr>;
          e2 = e1\<lparr>cityGraph := updateEdgeWeights d e1 (cityGraph e1)\<rparr>
      in case findNearestSafeZone d e2 userLocation of
           None \<Rightarrow> Some (Inl NoSafeZones, e2)
         | Some targetSafeZone \<Rightarrow>
             (case aStarAlgorithm d e2 userLocation targetSafeZone of
                None \<Rightarrow> None
              | Some (Inl err) \<Rightarrow> Some (Inl err, e2)
              | Some (Inr r) \<Rightarrow>
                  (let t = calculateEstimatedTime d r;
                       level = calculateRouteRiskLevel e2 r
                   in case generateAlternativeRoutes d e2 userLocation targetSafeZone 2 of
                        None \<Rightarrow> None
                      | Some (Inl err, e3) \<Rightarrow> Some (Inl err, e3)
                      | Some (Inr alternatives, e3) \<Rightarrow>
                          Some (Inr \<lparr>route = r, estimatedTime = t, riskLevel = level,
                                     alternativeRoutes = alternatives\<rparr>, e3))))"

section \<open>Sessions of the evacuation server\<close>

text \<open>
  The part of \<^verbatim>\<open>EarthquakeEvacuationServer\<close> that keeps the evacuation sessions. The
  clock (\<^verbatim>\<open>Date.now()\<close>, \<^verbatim>\<open>new Date()\<close>) is the argument \<open>now\<close>, in milliseconds,
  read once per request. A handler runs from start to end without another handler in
  between. The hazard store of the hazard service is handed to the engine as its hazard
  map, as the server does, and has the type the engine reads.

  A session holds the route object that \<^verbatim>\<open>calculateSafeRoute\<close> returned. The nodes in it
  are the node objects of the graph themselves, not copies of them: what a later calculation
  writes on a node object (its \<^verbatim>\<open>weight\<close>) is written on the node of every stored route.
  A stored route is therefore kept as references: every node object by its id, next to the
  time and the risk level, which are plain values.
\<close>

record route_ref =
  ref_route :: "string list"
  ref_estimatedTime :: int
  ref_riskLevel :: string
  ref_alternativeRoutes :: "string list list"

definition storeRoute :: "route_result \<Rightarrow> route_ref" where
  "storeRoute r =
     \<lparr>ref_route = map eid (route r),
      ref_estimatedTime = estimatedTime r,
      ref_riskLevel = riskLevel r,
      ref_alternativeRoutes = map (map eid) (alternativeRoutes r)\<rparr>"

record session =
  sess_id :: string
  startLocation :: location
  currentLocation :: location
  sess_route :: route_ref
  startTime :: real
  lastUpdate :: real
  status :: string

text \<open>\<open>emitted\<close> lists the \<^verbatim>\<open>route_updated\<close> events sent with
  \<^verbatim>\<open>io.to(sessionId).emit\<close>, as (session id, reason, route); \<open>errorLog\<close> lists the
  messages of \<^verbatim>\<open>console.error\<close>.\<close>

record server =
  routeEngine :: engine
  cachedData :: "seismic_data option"
  hazards :: "string \<rightharpoonup> hazard list"
  activeSessions :: "(string \<times> session) list"
  emitted :: "(string \<times> string \<times> route_ref) list"
  errorLog :: "string list"

datatype response =
    Status404
  | Status500
  | Json string location route_ref string
      \<comment> \<open>\<^verbatim>\<open>{session: {id, currentLocation, route, status}}\<close>\<close>

text \<open>A write to a property of the session object stored under a key.\<close>

fun updateSession :: "string \<Rightarrow> (session \<Rightarrow> session) \<Rightarrow> (string \<times> session) list
    \<Rightarrow> (string \<times> session) list" where
  "updateSession k f [] = []"
| "updateSession k f ((k', s) # rest) =
     (if k = k' then (k', f s) # rest else (k', s) # updateSession k f rest)"

text \<open>\<^verbatim>\<open>getRecentEarthquakes(hoursBack)\<close> of the USGS service, on the cached snapshot.
  \<^verbatim>\<open>data.features.filter\<close> raises on a snapshot without \<^verbatim>\<open>features\<close>.\<close>

definition getRecentEarthquakes :: "server \<Rightarrow> real \<Rightarrow> real \<Rightarrow> error + earthquake list" where
  "getRecentEarthquakes srv now hoursBack =
     (case cachedData srv of
        None \<Rightarrow> Inr []
      | Some data \<Rightarrow>
          (case features data of
             None \<Rightarrow> Inl TypeError
           | Some fs \<Rightarrow>
               (let cutoffTime = now - hoursBack * 60 * 60 * 1000
                in Inr (filter (\<lambda>feature. time feature \<ge> cutoffTime) fs))))"

text \<open>
  \<^verbatim>\<open>this.routeEngine.checkRouteForHazards(session.route.route, currentHazards)\<close>. The class
  \<^verbatim>\<open>RouteCalculationEngine\<close> defines no method of this name and nothing adds one to the
  engine object, so \<^verbatim>\<open>this.routeEngine.checkRouteForHazards\<close> is \<^verbatim>\<open>undefined\<close> and the
  call raises a \<^verbatim>\<open>TypeError\<close>, whatever its arguments are.
\<close>

definition checkRouteForHazards :: "string list \<Rightarrow> (string \<rightharpoonup> hazard list) \<Rightarrow> error + bool" where
  "checkRouteForHazards r currentHazards = Inl TypeError"

text \<open>\<^verbatim>\<open>checkRouteRecalculation(session)\<close>: the call of \<^verbatim>\<open>checkRouteForHazards\<close> comes
  first, the look at the recent earthquakes after it.\<close>

definition checkRouteRecalculation :: "server \<Rightarrow> real \<Rightarrow> session \<Rightarrow> error + bool" where
  "checkRouteRecalculation srv now s =
     (let currentHazards = hazards srv
      in case checkRouteForHazards (ref_route (sess_route s)) currentHazards of
           Inl err \<Rightarrow> Inl err
         | Inr routeHasNewHazards \<Rightarrow>
             (case getRecentEarthquakes srv now 1 of
                Inl err \<Rightarrow> Inl err
              | Inr recentEarthquakes \<Rightarrow>
                  (let hasSignificantActivity = list_ex (\<lambda>q. mag q \<ge> 5.0) recentEarthquakes
                   in Inr (routeHasNewHazards \<or> hasSignificantActivity))))"

text \<open>The loop over \<^verbatim>\<open>reportedHazards\<close> of the update handler.
  \<^verbatim>\<open>hazardService.reportHazard\<close> belongs to the hazard service, outside the route engine;
  it is the argument \<open>reportHazard\<close>, which gives the new hazard store or raises.\<close>

type_synonym 'r hazard_report = "'r \<Rightarrow> (string \<rightharpoonup> hazard list) \<Rightarrow> error + (string \<rightharpoonup> hazard list)"

fun reportAll :: "'r hazard_report \<Rightarrow> 'r list \<Rightarrow> (string \<rightharpoonup> hazard list)
    \<Rightarrow> error + (string \<rightharpoonup> hazard list)" where
  "reportAll reportHazard [] hz = Inr hz"
| "reportAll reportHazard (r # rs) hz =
     (case reportHazard r hz of
        Inl err \<Rightarrow> Inl err
      | Inr hz' \<Rightarrow> reportAll reportHazard rs hz')"

text \<open>The branch \<^verbatim>\<open>if (needsRecalculation) { ... }\<close> of the update handler, with the
  response that follows it. An error of the calculation reaches the \<^verbatim>\<open>catch\<close> of the
  handler: it is logged and answered with status 500.\<close>

definition recalculateOnUpdate :: "distance \<Rightarrow> server \<Rightarrow> string \<Rightarrow> session \<Rightarrow> location
    \<Rightarrow> (response \<times> server) option" where
  "recalculateOnUpdate d srv sessionId s loc =
     (case calculateSafeRoute d (routeEngine srv) loc (cachedData srv) (hazards srv) of
        None \<Rightarrow> None
      | Some (Inl err, eng) \<Rightarrow>
          Some (Status500,
                srv\<lparr>routeEngine := eng, errorLog := errorLog srv @ [''Route update error:'']\<rparr>)
      | Some (Inr newRoute, eng) \<Rightarrow>
          Some (Json sessionId (currentLocation s) (storeRoute newRoute) (status s),
                srv\<lparr>routeEngine := eng,
                    activeSessions :=
                      updateSession sessionId (\<lambda>x. x\<lparr>sess_route := storeRoute newRoute\<rparr>)
                        (activeSessions srv),
                    emitted := emitted srv
                      @ [(sessionId, ''hazard_detected'', storeRoute newRoute)]\<rparr>))"

text \<open>\<^verbatim>\<open>POST /api/route/update/:sessionId\<close>\<close>

definition updateRoute :: "'r hazard_report \<Rightarrow> distance \<Rightarrow> real \<Rightarrow> server
    \<Rightarrow> string \<Rightarrow> location \<Rightarrow> 'r list \<Rightarrow> (response \<times> server) option" where
  "updateRoute reportHazard d now srv sessionId loc reportedHazards =
     (case map_of (activeSessions srv) sessionId of
        None \<Rightarrow> Some (Status404, srv)
      | Some s0 \<Rightarrow>
          (let s = s0\<lparr>currentLocation := loc, lastUpdate := now\<rparr>;
               srv1 = srv\<lparr>activeSessions :=
                            updateSession sessionId
                              (\<lambda>x. x\<lparr>currentLocation := loc, lastUpdate := now\<rparr>)
                              (activeSessions srv)\<rparr>
           in case reportAll reportHazard reportedHazards (hazards srv1) of
                Inl err \<Rightarrow>
                  Some (Status500, srv1\<lparr>errorLog := errorLog srv1 @ [''Route update error:'']\<rparr>)
              | Inr hz \<Rightarrow>
                  (let srv2 = srv1\<lparr>hazards := hz\<rparr>
                   in case checkRouteRecalculation srv2 now s of
                        Inl err \<Rightarrow>
                          Some (Status500,
                                srv2\<lparr>errorLog := errorLog srv2 @ [''Route update error:'']\<rparr>)
                      | Inr needsRecalculation \<Rightarrow>
                          if needsRecalculation then recalculateOnUpdate d srv2 sessionId s loc
                          else Some (Json sessionId (currentLocation s) (sess_route s) (status s),
                                     srv2))))"

text \<open>The handler of the socket event \<^verbatim>\<open>location_update\<close>. \<open>clientSession\<close> is the
  \<^verbatim>\<open>sessionId\<close> of the connected client (\<open>None\<close> when there is no such client or it has
  joined no session). The handler writes the place and the time and calls nothing of the
  route engine; the notice to the emergency service is outside the sessions.\<close>

definition locationUpdate :: "real \<Rightarrow> server \<Rightarrow> string option \<Rightarrow> location \<Rightarrow> server" where
  "locationUpdate now srv clientSession loc =
     (case clientSession of
        None \<Rightarrow> srv
      | Some sessionId \<Rightarrow>
          srv\<lparr>activeSessions :=
                updateSession sessionId (\<lambda>x. x\<lparr>currentLocation := loc, lastUpdate := now\<rparr>)
                  (activeSessions srv)\<rparr>)"

text \<open>The \<^verbatim>\<open>try\<close> block of \<^verbatim>\<open>checkAllRoutesForRecalculation\<close>: the recalculation for
  one session. An error of the calculation is caught and logged.\<close>

definition recalculateOnSweep :: "distance \<Rightarrow> real \<Rightarrow> seismic_data option \<Rightarrow> server \<Rightarrow> string
    \<Rightarrow> session \<Rightarrow> (error option \<times> server) option" where
  "recalculateOnSweep d now earthquakeData srv sessionId s =
     (case calculateSafeRoute d (routeEngine srv) (currentLocation s) earthquakeData
             (hazards srv) of
        None \<Rightarrow> None
      | Some (Inl err, eng) \<Rightarrow>
          Some (None,
                srv\<lparr>routeEngine := eng,
                    errorLog := errorLog srv
                      @ [''Failed to recalculate route for session '' @ sessionId]\<rparr>)
      | Some (Inr newRoute, eng) \<Rightarrow>
          Some (None,
                srv\<lparr>routeEngine := eng,
                    activeSessions :=
                      updateSession sessionId
                        (\<lambda>x. x\<lparr>sess_route := storeRoute newRoute, lastUpdate := now\<rparr>)
                        (activeSessions srv),
                    emitted := emitted srv
                      @ [(sessionId, ''earthquake_activity'', storeRoute newRoute)]\<rparr>))"

text \<open>The body of the loop of \<^verbatim>\<open>checkAllRoutesForRecalculation(earthquakeData)\<close> for one
  session. An error of \<^verbatim>\<open>checkRouteRecalculation\<close> is outside the \<^verbatim>\<open>try\<close> and ends the
  sweep (the first component of the result).\<close>

definition sweepSession :: "distance \<Rightarrow> real \<Rightarrow> seismic_data option \<Rightarrow> server
    \<Rightarrow> string \<Rightarrow> session \<Rightarrow> (error option \<times> server) option" where
  "sweepSession d now earthquakeData srv sessionId s =
     (if status s = ''active'' then
        (case checkRouteRecalculation srv now s of
           Inl err \<Rightarrow> Some (Some err, srv)
         | Inr needsRecalc \<Rightarrow>
             if needsRecalc then recalculateOnSweep d now earthquakeData srv sessionId s
             else Some (None, srv))
      else Some (None, srv))"

fun sweepLoop :: "distance \<Rightarrow> real \<Rightarrow> seismic_data option \<Rightarrow> server
    \<Rightarrow> (string \<times> session) list \<Rightarrow> (error option \<times> server) option" where
  "sweepLoop d now earthquakeData srv [] = Some (None, srv)"
| "sweepLoop d now earthquakeData srv ((sessionId, s) # rest) =
     (case sweepSession d now earthquakeData srv sessionId s of
        None \<Rightarrow> None
      | Some (Some err, srv') \<Rightarrow> Some (Some err, srv')
      | Some (None, srv') \<Rightarrow> sweepLoop d now earthquakeData srv' rest)"

definition checkAllRoutesForRecalculation :: "distance \<Rightarrow> real
    \<Rightarrow> seismic_data option \<Rightarrow> server \<Rightarrow> (error option \<times> server) option" where
  "checkAllRoutesForRecalculation d now earthquakeData srv =
     sweepLoop d now earthquakeData srv (activeSessions srv)"

section \<open>Sample inputs\<close>

text \<open>The distance used in the samples: the sum of the differences of the two
  coordinates.\<close>

definition sampleDistance :: distance where
  "sampleDistance p q = \<bar>fst p - fst q\<bar> + \<bar>snd p - snd q\<bar>"

definition sampleNode :: "string \<Rightarrow> real \<Rightarrow> string list \<Rightarrow> entry" where
  "sampleNode i la ns =
     \<lparr>etype = ''node'', eid = i, lat = la, lng = 0, neighbors = ns,
      startLat = 0, startLng = 0, baseDistance = 0, weight = 0\<rparr>"

definition sampleEdge :: "string \<Rightarrow> real \<Rightarrow> real \<Rightarrow> entry" where
  "sampleEdge i b w =
     \<lparr>etype = ''edge'', eid = i, lat = 0, lng = 0, neighbors = [],
      startLat = 0, startLng = 0, baseDistance = b, weight = w\<rparr>"

definition sampleEngine :: "graph \<Rightarrow> engine" where
  "sampleEngine g =
     \<lparr>cityGraph = g, safeZones = [\<lparr>loc_lat = 1, loc_lng = 0\<rparr>], hazardMap = Map.empty,
      crowdDensityMap = Map.empty, structuralRiskMap = Map.empty, seismicData = None\<rparr>"

definition origin :: location where
  "origin = \<lparr>loc_lat = 0, loc_lng = 0\<rparr>"

definition zone :: location where
  "zone = \<lparr>loc_lat = 1, loc_lng = 0\<rparr>"

text \<open>Four nodes on a line, \<open>S\<close> at 0, \<open>A\<close> at 0.1, \<open>N\<close> at 0.5 and \<open>G\<close> at 1, with the
  edges \<open>S-N\<close> (10), \<open>S-A\<close> (1), \<open>A-N\<close> (1), \<open>N-G\<close> (1) and \<open>S-G\<close> (5).\<close>

definition fourNodes :: graph where
  "fourNodes =
     [(''S'', sampleNode ''S'' 0 [''N'', ''A'', ''G'']),
      (''A'', sampleNode ''A'' 0.1 [''S'', ''N'']),
      (''N'', sampleNode ''N'' 0.5 [''S'', ''A'', ''G'']),
      (''G'', sampleNode ''G'' 1 [''S'', ''N'']),
      (''S-N'', sampleEdge ''S-N'' 0 10),
      (''S-A'', sampleEdge ''S-A'' 0 1),
      (''A-N'', sampleEdge ''A-N'' 0 1),
      (''N-G'', sampleEdge ''N-G'' 0 1),
      (''S-G'', sampleEdge ''S-G'' 0 5)]"

text \<open>Two nodes joined by one edge, and the same two nodes with no edge.\<close>

definition twoNodes :: graph where
  "twoNodes =
     [(''S'', sampleNode ''S'' 0 [''G'']),
      (''G'', sampleNode ''G'' 1 [''S'']),
      (''S-G'', sampleEdge ''S-G'' 1 0)]"

definition apartNodes :: graph where
  "apartNodes =
     [(''S'', sampleNode ''S'' 0 []),
      (''G'', sampleNode ''G'' 1 [])]"

text \<open>What the calculation from \<open>origin\<close> on the two joined nodes returns, and the engine
  it leaves.\<close>

definition twoNodesRoute :: "entry list" where
  "twoNodesRoute =
     [(sampleNode ''S'' 0 [''G''])\<lparr>weight := 1 / 10\<rparr>,
      (sampleNode ''G'' 1 [''S''])\<lparr>weight := 1 / 10\<rparr>]"

definition twoNodesResult :: route_result where
  "twoNodesResult =
     \<lparr>route = twoNodesRoute, estimatedTime = 12, riskLevel = ''LOW'',
      alternativeRoutes = [twoNodesRoute, twoNodesRoute]\<rparr>"

definition twoNodesAfter :: engine where
  "twoNodesAfter =
     sampleEngine
       [(''S'', (sampleNode ''S'' 0 [''G''])\<lparr>weight := 1 / 10\<rparr>),
        (''G'', (sampleNode ''G'' 1 [''S''])\<lparr>weight := 1 / 10\<rparr>),
        (''S-G'', sampleEdge ''S-G'' 1 (8 / 5))]"

text \<open>A server with one active session, whose stored route is the node \<open>S\<close> alone; the
  cached snapshot holds one earthquake of magnitude 6 at time 1000.\<close>

definition sampleRoute :: route_ref where
  "sampleRoute =
     \<lparr>ref_route = [''S''], ref_estimatedTime = 0, ref_riskLevel = ''LOW'',
      ref_alternativeRoutes = []\<rparr>"

definition sampleSession :: session where
  "sampleSession =
     \<lparr>sess_id = ''evac_1'', startLocation = origin, currentLocation = origin,
      sess_route = sampleRoute, startTime = 0, lastUpdate = 0, status = ''active''\<rparr>"

definition sampleQuake :: earthquake where
  "sampleQuake = \<lparr>eq_lng = 0, eq_lat = 0, eq_depth = 10, mag = 6, time = 1000\<rparr>"

definition sampleServer :: "graph \<Rightarrow> server" where
  "sampleServer g =
     \<lparr>routeEngine = sampleEngine g,
      cachedData = Some \<lparr>features = Some [sampleQuake]\<rparr>,
      hazards = Map.empty,
      activeSessions = [(''evac_1'', sampleSession)],
      emitted = [],
      errorLog = []\<rparr>"

definition noReport :: "unit hazard_report" where
  "noReport r hz = Inr hz"

text \<open>An engine on the two joined nodes with people and a fire on the edge and the sample
  earthquake in the snapshot.\<close>

definition busyEngine :: engine where
  "busyEngine =
     (sampleEngine twoNodes)
       \<lparr>hazardMap := [''S-G'' \<mapsto> [\<lparr>htype = ''fire''\<rparr>]],
        crowdDensityMap := [''S-G'' \<mapsto> 500],
        seismicData := Some \<lparr>features = Some [sampleQuake]\<rparr>\<rparr>"


section \<open>Notions used in the statements\<close>

text \<open>The graph without its weights, and two engines that differ at most in the weights of
  their graph and in the snapshot and hazard map of the last call.\<close>

definition stripWeights :: "graph \<Rightarrow> graph" where
  "stripWeights g = map (\<lambda>(k, x). (k, x\<lparr>weight := 0\<rparr>)) g"

definition sameBase :: "engine \<Rightarrow> engine \<Rightarrow> bool" where
  "sameBase e e' =
     (stripWeights (cityGraph e) = stripWeights (cityGraph e') \<and>
      safeZones e = safeZones e' \<and>
      crowdDensityMap e = crowdDensityMap e' \<and>
      structuralRiskMap e = structuralRiskMap e')"

text \<open>The weights of the graph, in the order of its keys, and the weights that a
  calculation leaves in the graph of the engine.\<close>

definition graphWeights :: "graph \<Rightarrow> real list" where
  "graphWeights g = map (\<lambda>kv. weight (snd kv)) g"

definition weightsAfter :: "distance \<Rightarrow> engine \<Rightarrow> location \<Rightarrow> seismic_data option
    \<Rightarrow> (string \<rightharpoonup> hazard list) \<Rightarrow> real list option" where
  "weightsAfter d e loc sd hm =
     map_option (\<lambda>res. graphWeights (cityGraph (snd res))) (calculateSafeRoute d e loc sd hm)"

text \<open>A sequence of calls of \<^verbatim>\<open>calculateSafeRoute\<close> on one engine, whatever their
  results.\<close>

fun runCalls :: "distance \<Rightarrow> engine
    \<Rightarrow> (location \<times> seismic_data option \<times> (string \<rightharpoonup> hazard list)) list \<Rightarrow> engine option" where
  "runCalls d e [] = Some e"
| "runCalls d e ((loc, sd, hm) # calls) =
     (case calculateSafeRoute d e loc sd hm of
        None \<Rightarrow> None
      | Some (res, e') \<Rightarrow> runCalls d e' calls)"

text \<open>The argument of \<^verbatim>\<open>Math.log10\<close> in \<^verbatim>\<open>calculateShindoIntensity\<close> is positive for
  every event of the snapshot: the distance of the event from the start of the edge plus its
  depth.\<close>

definition attenuationDefined :: "distance \<Rightarrow> entry \<Rightarrow> seismic_data option \<Rightarrow> bool" where
  "attenuationDefined d edge sd =
     (case sd of
        None \<Rightarrow> True
      | Some s \<Rightarrow>
          (case features s of
             None \<Rightarrow> True
           | Some fs \<Rightarrow>
               (\<forall>q \<in> set fs. 0 < d (startLng edge, startLat edge) (eq_lng q, eq_lat q) + eq_depth q)))"

text \<open>The node ids of the primary route and of the alternative routes of a result.\<close>

definition routeIds :: "((error + route_result) \<times> engine) option \<Rightarrow> string list option" where
  "routeIds res =
     (case res of
        Some (Inr r, e) \<Rightarrow> Some (map eid (route r))
      | _ \<Rightarrow> None)"

definition alternativeIds :: "((error + route_result) \<times> engine) option \<Rightarrow> string list list option" where
  "alternativeIds res =
     (case res of
        Some (Inr r, e) \<Rightarrow> Some (map (map eid) (alternativeRoutes r))
      | _ \<Rightarrow> None)"

text \<open>The cost of a path given by its node ids: the sum of the weights of its edges, as
  the search reads them.\<close>

fun pathCost :: "graph \<Rightarrow> string list \<Rightarrow> real option" where
  "pathCost g (a # b # rest) =
     (case getEdge g a b of
        None \<Rightarrow> None
      | Some edge \<Rightarrow> map_option (\<lambda>c. weight edge + c) (pathCost g (b # rest)))"
| "pathCost g _ = Some 0"

text \<open>The weight of the edge between two nodes is at least the distance between them.
  When this holds for every edge, the distance to the goal never exceeds the cost of a path to
  the goal (for a distance with the triangle inequality).\<close>

definition edgeCoversDistance :: "distance \<Rightarrow> graph \<Rightarrow> string \<Rightarrow> string \<Rightarrow> bool" where
  "edgeCoversDistance d g a b =
     (case (getNode g a, getNode g b, getEdge g a b) of
        (Some x, Some y, Some edge) \<Rightarrow> heuristic d x y \<le> weight edge
      | _ \<Rightarrow> False)"

text \<open>The second trigger in the words of the specification: the snapshot holds an event of
  magnitude at least 5.0 that is at most one hour (3600000 ms) old.\<close>

definition recentSignificant :: "seismic_data option \<Rightarrow> real \<Rightarrow> bool" where
  "recentSignificant cache now =
     (case cache of
        None \<Rightarrow> False
      | Some data \<Rightarrow>
          (case features data of
             None \<Rightarrow> False
           | Some fs \<Rightarrow> (\<exists>q \<in> set fs. now - 3600000 \<le> time q \<and> 5 \<le> mag q)))"

text \<open>The id of the node the search takes as its goal for a location.\<close>

definition goalId :: "distance \<Rightarrow> graph \<Rightarrow> location \<Rightarrow> string option" where
  "goalId d g goal = map_option eid (findNearestNode d g goal)"

text \<open>Two states of the scan of \<^verbatim>\<open>findNearestNode\<close> that agree up to the weight of the
  node found.\<close>

definition sameNode :: "(entry \<times> real) option \<Rightarrow> (entry \<times> real) option \<Rightarrow> bool" where
  "sameNode a b =
     (case (a, b) of
        (None, None) \<Rightarrow> True
      | (Some (x, m), Some (y, n)) \<Rightarrow> x\<lparr>weight := 0\<rparr> = y\<lparr>weight := 0\<rparr> \<and> m = n
      | _ \<Rightarrow> False)"

text \<open>A graph that holds every entry under its own id, each key once; the relation of
  \<^verbatim>\<open>cameFrom\<close> (a node and the node it was reached from); and the invariant of the search
  loop: the nodes of the open set are nodes of the graph that are not closed, no node is in
  the open set twice, \<^verbatim>\<open>cameFrom\<close> has no cycle and leads to closed nodes only.\<close>

definition wfGraph :: "graph \<Rightarrow> bool" where
  "wfGraph g = (distinct (map fst g) \<and> (\<forall>kx \<in> set g. eid (snd kx) = fst kx))"

definition cameRel :: "(string \<rightharpoonup> string) \<Rightarrow> (string \<times> string) set" where
  "cameRel came = {(p, k). came k = Some p}"

definition searchInv :: "graph \<Rightarrow> astate \<Rightarrow> bool" where
  "searchInv g st =
     ((\<forall>it \<in> set (openSet st). eid (fst it) \<in> fst ` set g \<and> eid (fst it) \<notin> closedSet st)
      \<and> distinct (map (\<lambda>it. eid (fst it)) (openSet st))
      \<and> wf (cameRel (cameFrom st))
      \<and> (\<forall>k p. cameFrom st k = Some p \<longrightarrow> p \<in> closedSet st))"

section \<open>Properties\<close>

subsection \<open>Bounds of the risk terms\<close>

lemma calculateShindoIntensity_range:
  "0 \<le> calculateShindoIntensity m x y \<and> calculateShindoIntensity m x y \<le> 7"
  by (simp add: calculateShindoIntensity_def Let_def)

lemma earthquakeRisk_range: "0 \<le> earthquakeRisk d edge q \<and> earthquakeRisk d edge q \<le> 1"
  using calculateShindoIntensity_range [of "mag q" _ "eq_depth q"]
  by (simp add: earthquakeRisk_def Let_def)

lemma foldl_max_range:
  "0 \<le> (a::real) \<Longrightarrow> a \<le> 1 \<Longrightarrow> \<forall>x \<in> set xs. 0 \<le> f x \<and> f x \<le> 1 \<Longrightarrow>
   0 \<le> foldl (\<lambda>m x. max m (f x)) a xs \<and> foldl (\<lambda>m x. max m (f x)) a xs \<le> 1"
  by (induction xs arbitrary: a) auto

lemma calculateSeismicRisk_range:
  "0 \<le> calculateSeismicRisk d edge sd \<and> calculateSeismicRisk d edge sd \<le> 1"
proof (cases sd)
  case None
  then show ?thesis by (simp add: calculateSeismicRisk_def)
next
  case (Some s)
  show ?thesis
  proof (cases "features s")
    case None
    with Some show ?thesis by (simp add: calculateSeismicRisk_def)
  next
    case (Some fs)
    have "0 \<le> foldl (\<lambda>m q. max m (earthquakeRisk d edge q)) 0 fs
          \<and> foldl (\<lambda>m q. max m (earthquakeRisk d edge q)) 0 fs \<le> 1"
      by (rule foldl_max_range) (simp_all add: earthquakeRisk_range)
    with Some \<open>sd = Some s\<close> show ?thesis by (simp add: calculateSeismicRisk_def)
  qed
qed

lemma calculateStructuralRisk_range:
  "0 \<le> calculateStructuralRisk e edge \<and> calculateStructuralRisk e edge \<le> 1"
  by (simp add: calculateStructuralRisk_def Let_def split: option.split)


lemma getCrowdDensity_ge:
  "(case crowdDensityMap e (eid edge) of None \<Rightarrow> True | Some x \<Rightarrow> 0 \<le> x) \<Longrightarrow>
   0 \<le> getCrowdDensity e edge"
  by (simp add: getCrowdDensity_def Let_def split: option.splits)

lemma hazardScore_pos: "0 \<le> hazardScore h"
  by (simp add: hazardScore_def)

lemma foldl_hazard_nonneg: "0 \<le> a \<Longrightarrow> 0 \<le> foldl (\<lambda>r h. r + hazardScore h) a hs"
  by (induction hs arbitrary: a) (simp_all add: hazardScore_pos)

lemma getHazardReports_range: "0 \<le> getHazardReports e edge \<and> getHazardReports e edge \<le> 1"
  using foldl_hazard_nonneg [of 0]
  by (simp add: getHazardReports_def Let_def)

subsection \<open>Independence of the weights left in the graph\<close>

lemma strip_entry_fields:
  assumes "x\<lparr>weight := 0\<rparr> = y\<lparr>weight := 0\<rparr>"
  shows "eid x = eid y" "startLat x = startLat y" "startLng x = startLng y"
    "baseDistance x = baseDistance y" "etype x = etype y" "lat x = lat y" "lng x = lng y"
    "neighbors x = neighbors y" "x\<lparr>weight := w\<rparr> = y\<lparr>weight := w\<rparr>"
proof -
  show "eid x = eid y" using arg_cong [OF assms, of eid] by simp
  show "startLat x = startLat y" using arg_cong [OF assms, of startLat] by simp
  show "startLng x = startLng y" using arg_cong [OF assms, of startLng] by simp
  show "baseDistance x = baseDistance y" using arg_cong [OF assms, of baseDistance] by simp
  show "etype x = etype y" using arg_cong [OF assms, of etype] by simp
  show "lat x = lat y" using arg_cong [OF assms, of lat] by simp
  show "lng x = lng y" using arg_cong [OF assms, of lng] by simp
  show "neighbors x = neighbors y" using arg_cong [OF assms, of neighbors] by simp
  show "x\<lparr>weight := w\<rparr> = y\<lparr>weight := w\<rparr>"
    using arg_cong [OF assms, of "\<lambda>z. z\<lparr>weight := w\<rparr>"] by simp
qed

lemma edgeWeight_strip:
  assumes "x\<lparr>weight := 0\<rparr> = y\<lparr>weight := 0\<rparr>"
    and "seismicData e = seismicData e'" and "hazardMap e = hazardMap e'"
    and "crowdDensityMap e = crowdDensityMap e'" and "structuralRiskMap e = structuralRiskMap e'"
  shows "edgeWeight d e x = edgeWeight d e' y"
proof -
  note f = strip_entry_fields(1-4) [OF assms(1)]
  have "\<And>q. earthquakeRisk d x q = earthquakeRisk d y q"
    using f by (simp add: earthquakeRisk_def)
  then have s: "calculateSeismicRisk d x (seismicData e) = calculateSeismicRisk d y (seismicData e')"
    using assms(2) by (simp add: calculateSeismicRisk_def split: option.splits)
  have t: "calculateStructuralRisk e x = calculateStructuralRisk e' y"
    using f assms(5) by (simp add: calculateStructuralRisk_def)
  have c: "getCrowdDensity e x = getCrowdDensity e' y"
    using f assms(4) by (simp add: getCrowdDensity_def)
  have h: "getHazardReports e x = getHazardReports e' y"
    using f assms(3) by (simp add: getHazardReports_def)
  show ?thesis
    using f(4) by (simp only: edgeWeight_def s t c h)
qed

lemma updateEdgeWeights_strip:
  assumes "stripWeights g = stripWeights g'"
    and "seismicData e = seismicData e'" and "hazardMap e = hazardMap e'"
    and "crowdDensityMap e = crowdDensityMap e'" and "structuralRiskMap e = structuralRiskMap e'"
  shows "updateEdgeWeights d e g = updateEdgeWeights d e' g'"
  using assms(1)
proof (induction g arbitrary: g')
  case Nil
  then show ?case by (simp add: stripWeights_def updateEdgeWeights_def)
next
  case (Cons a g)
  obtain k x where a: "a = (k, x)" by (cases a)
  from Cons.prems obtain b g2 where g': "g' = b # g2"
    by (cases g') (auto simp: stripWeights_def)
  obtain k' y where b: "b = (k', y)" by (cases b)
  from Cons.prems a b g' have kk: "k = k'" and xy: "x\<lparr>weight := 0\<rparr> = y\<lparr>weight := 0\<rparr>"
    and rest: "stripWeights g = stripWeights g2"
    by (simp_all add: stripWeights_def)
  have "edgeWeight d e x = edgeWeight d e' y"
    by (rule edgeWeight_strip [OF xy assms(2-5)])
  moreover have "updateEdgeWeights d e g = updateEdgeWeights d e' g2"
    by (rule Cons.IH [OF rest])
  ultimately show ?case
    using a b g' kk strip_entry_fields(9) [OF xy]
    by (simp add: updateEdgeWeights_def)
qed

lemma stripWeights_updateEdgeWeights [simp]:
  "stripWeights (updateEdgeWeights d e g) = stripWeights g"
  by (induction g) (auto simp: stripWeights_def updateEdgeWeights_def)

lemma stripWeights_doubleWeight [simp]: "stripWeights (doubleWeight k g) = stripWeights g"
  by (induction g) (auto simp: stripWeights_def)

lemma stripWeights_penalizeRoute [simp]: "stripWeights (penalizeRoute g r) = stripWeights g"
  by (induction g r rule: penalizeRoute.induct) simp_all

lemma stripWeights_penalizePreviousRoutes [simp]:
  "stripWeights (penalizePreviousRoutes g rs) = stripWeights g"
  unfolding penalizePreviousRoutes_def by (induction rs arbitrary: g) simp_all

lemma sameBase_refl [simp]: "sameBase e e"
  by (simp add: sameBase_def)

lemma sameBase_trans: "sameBase a b \<Longrightarrow> sameBase b c \<Longrightarrow> sameBase a c"
  by (simp add: sameBase_def)

lemma sameBase_sym: "sameBase a b \<Longrightarrow> sameBase b a"
  by (simp add: sameBase_def)

lemma alternativesLoop_sameBase:
  "alternativesLoop d start goal p n e alts = Some (res, e') \<Longrightarrow> sameBase e e'"
proof (induction n arbitrary: e alts)
  case 0
  then show ?case by simp
next
  case (Suc n)
  let ?e1 = "e\<lparr>cityGraph := penalizePreviousRoutes (cityGraph e) (p # alts)\<rparr>"
  have b: "sameBase e ?e1" by (simp add: sameBase_def)
  show ?case
  proof (cases "aStarAlgorithm d ?e1 start goal")
    case None
    with Suc.prems show ?thesis by (simp add: Let_def)
  next
    case (Some r)
    show ?thesis
    proof (cases r)
      case (Inl err)
      with Some Suc.prems have "e' = ?e1" by (auto simp: Let_def)
      with b show ?thesis by simp
    next
      case (Inr alt)
      with Some Suc.prems
      have "alternativesLoop d start goal p n ?e1 (alts @ [alt]) = Some (res, e')"
        by (simp add: Let_def)
      from Suc.IH [OF this] b show ?thesis by (rule sameBase_trans [rotated])
    qed
  qed
qed

lemma generateAlternativeRoutes_sameBase:
  "generateAlternativeRoutes d e start goal n = Some (res, e') \<Longrightarrow> sameBase e e'"
  by (auto simp: generateAlternativeRoutes_def split: option.splits sum.splits
      dest: alternativesLoop_sameBase)

lemma calculateSafeRoute_sameBase:
  assumes "calculateSafeRoute d e loc sd hm = Some (res, e')"
  shows "sameBase e e'"
proof -
  let ?e1 = "e\<lparr>seismicData := sd, hazardMap := hm\<rparr>"
  let ?e2 = "?e1\<lparr>cityGraph := updateEdgeWeights d ?e1 (cityGraph ?e1)\<rparr>"
  have b: "sameBase e ?e2" by (simp add: sameBase_def)
  have "e' = ?e2 \<or> (\<exists>z r n. generateAlternativeRoutes d ?e2 loc z n = Some (r, e'))"
    using assms
    by (auto simp: calculateSafeRoute_def Let_def split: option.splits sum.splits)
  then show ?thesis
    using b by (auto dest!: generateAlternativeRoutes_sameBase intro: sameBase_trans)
qed

lemma calculateSafeRoute_base:
  assumes "sameBase e e'"
  shows "calculateSafeRoute d e' loc sd hm = calculateSafeRoute d e loc sd hm"
proof -
  let ?e1 = "e\<lparr>seismicData := sd, hazardMap := hm\<rparr>"
  let ?e1' = "e'\<lparr>seismicData := sd, hazardMap := hm\<rparr>"
  have g: "updateEdgeWeights d ?e1' (cityGraph ?e1') = updateEdgeWeights d ?e1 (cityGraph ?e1)"
    using assms by (intro updateEdgeWeights_strip) (simp_all add: sameBase_def)
  have "?e1'\<lparr>cityGraph := updateEdgeWeights d ?e1' (cityGraph ?e1')\<rparr>
        = ?e1\<lparr>cityGraph := updateEdgeWeights d ?e1 (cityGraph ?e1)\<rparr>"
    using assms g by (simp add: sameBase_def)
  then show ?thesis
    unfolding calculateSafeRoute_def by (simp only: Let_def)
qed

subsection \<open>Evaluation of the samples\<close>

lemmas search_eval = aStarAlgorithm_def findNearestNode_def nearerNode_def
  heuristic_def aStarLoop.simps pq_pop_def pq_push_def pq_some_id_def getEdge_def getNode_def
  edgeKey_def reconstructPath_def reconstructLoop.simps Let_def

lemmas sample_eval = sampleEngine_def sampleNode_def sampleEdge_def sampleDistance_def
  origin_def zone_def

lemmas calc_eval = calculateSafeRoute_def updateEdgeWeights_def edgeWeight_def
  calculateSeismicRisk_def calculateStructuralRisk_def getCrowdDensity_def getHazardReports_def
  findNearestSafeZone_def nearerZone_def calculateEstimatedTime_def calculateRouteRiskLevel_def
  generateAlternativeRoutes_def penalizePreviousRoutes_def numeral_2_eq_2

lemma twoNodes_run:
  "calculateSafeRoute sampleDistance (sampleEngine twoNodes) origin None Map.empty
   = Some (Inr twoNodesResult, twoNodesAfter)"
  by (simp add: search_eval sample_eval calc_eval twoNodes_def twoNodesResult_def
      twoNodesRoute_def twoNodesAfter_def)

subsection \<open>Seismic risk without events\<close>

text \<open>
  Claim C10. With a snapshot that is \<^verbatim>\<open>null\<close> or \<^verbatim>\<open>undefined\<close>, or that has no
  \<^verbatim>\<open>features\<close>, the seismic risk of every edge is the default 0.1, and the weight of the
  edge then holds the share 0.4 * 0.1 of it; with a snapshot whose list of events is empty
  the seismic risk is 0.
\<close>

theorem seismic_risk_empty_inputs:
  "calculateSeismicRisk d edge None = 0.1 \<and>
   calculateSeismicRisk d edge (Some \<lparr>features = None\<rparr>) = 0.1 \<and>
   calculateSeismicRisk d edge (Some \<lparr>features = Some []\<rparr>) = 0 \<and>
   edgeWeight d (e\<lparr>seismicData := None\<rparr>) edge =
     (0.4 * 0.1 + 0.3 * calculateStructuralRisk e edge + 0.2 * getCrowdDensity e edge
      + 0.1 * getHazardReports e edge + baseDistance edge * 0.1)"
proof -
  have st: "calculateStructuralRisk (e\<lparr>seismicData := None\<rparr>) edge = calculateStructuralRisk e edge"
    by (simp add: calculateStructuralRisk_def)
  have le: "\<not> calculateStructuralRisk e edge > 0.9"
    by (simp add: calculateStructuralRisk_def Let_def split: option.split)
  have cd: "getCrowdDensity (e\<lparr>seismicData := None\<rparr>) edge = getCrowdDensity e edge"
    by (simp add: getCrowdDensity_def)
  have hz: "getHazardReports (e\<lparr>seismicData := None\<rparr>) edge = getHazardReports e edge"
    by (simp add: getHazardReports_def)
  show ?thesis
    using le by (simp add: calculateSeismicRisk_def edgeWeight_def Let_def st cd hz)
qed

theorem seismic_risk_empty_inputs_witness:
  "calculateSeismicRisk sampleDistance (sampleEdge ''S-G'' 1 0) None = 0.1 \<and>
   calculateSeismicRisk sampleDistance (sampleEdge ''S-G'' 1 0) (Some \<lparr>features = None\<rparr>) = 0.1 \<and>
   calculateSeismicRisk sampleDistance (sampleEdge ''S-G'' 1 0) (Some \<lparr>features = Some []\<rparr>) = 0"
  using seismic_risk_empty_inputs [of sampleDistance "sampleEdge ''S-G'' 1 0"] by simp

subsection \<open>The cost of an edge\<close>



subsection \<open>The floor of the cost and the base distance\<close>

lemma edgeWeight_floor:
  assumes "0 \<le> baseDistance edge"
    and "\<forall>x. crowdDensityMap e (eid edge) = Some x \<longrightarrow> 0 \<le> x"
  shows "0 \<le> edgeWeight d e edge" and "0.1 * baseDistance edge \<le> edgeWeight d e edge"
proof -
  let ?s = "calculateSeismicRisk d edge (seismicData e)"
  let ?t = "calculateStructuralRisk e edge"
  let ?c = "getCrowdDensity e edge"
  let ?h = "getHazardReports e edge"
  let ?r = "0.4 * ?s + 0.3 * ?t + 0.2 * ?c + 0.1 * ?h"
  have c: "0 \<le> ?c"
    using assms(2) by (intro getCrowdDensity_ge) (simp split: option.split)
  have r: "0 \<le> ?r"
    using c calculateSeismicRisk_range [of d edge "seismicData e"]
      calculateStructuralRisk_range [of e edge] getHazardReports_range [of e edge]
    by simp
  have w: "edgeWeight d e edge = (if ?s > 0.8 \<or> ?t > 0.9 then 3 else 1) * (?r + 0.1 * baseDistance edge)"
    by (simp add: edgeWeight_def Let_def)
  show "0 \<le> edgeWeight d e edge"
    using r assms(1) unfolding w by simp
  show "0.1 * baseDistance edge \<le> edgeWeight d e edge"
    using r assms(1) unfolding w by (simp split: if_splits)
qed

lemma stripWeights_baseDistance:
  "stripWeights g = stripWeights g' \<Longrightarrow>
   map (\<lambda>kv. (fst kv, baseDistance (snd kv))) g = map (\<lambda>kv. (fst kv, baseDistance (snd kv))) g'"
proof -
  assume a: "stripWeights g = stripWeights g'"
  have "\<And>h. map (\<lambda>kv. (fst kv, baseDistance (snd kv))) (stripWeights h)
           = map (\<lambda>kv. (fst kv, baseDistance (snd kv))) h"
    by (simp add: stripWeights_def case_prod_beta)
  with a show ?thesis by metis
qed

text \<open>
  Claim C5, as stated, fails. The density is only capped from above and the base distance
  is taken as it is stored: with a stored density of -10000 the cost of an edge of base
  distance 1 is -9/5, below 0 and below the distance term 1/10; with a base distance of -10
  the cost is -9/10.
\<close>

theorem negative_inputs_negative_cost:
  "edgeWeight sampleDistance ((sampleEngine twoNodes)\<lparr>crowdDensityMap := [''S-G'' \<mapsto> - 10000]\<rparr>)
     (sampleEdge ''S-G'' 1 0) = - 9 / 5
   \<and> 0.1 * baseDistance (sampleEdge ''S-G'' 1 0) = 1 / 10
   \<and> edgeWeight sampleDistance (sampleEngine twoNodes) (sampleEdge ''S-G'' (- 10) 0) = - 9 / 10"
  by (simp add: sample_eval calc_eval)

text \<open>
  Claim C5, amended. For an edge whose base distance is not negative and whose recorded
  density is not negative, the weight that \<^verbatim>\<open>updateEdgeWeights\<close> computes is at least 0
  and at least 0.1 * base distance, for every hazard map and every seismic snapshot for
  which the logarithm is defined. Neither the cost computation nor the penalties nor a whole
  calculation (with its searches) change the base distance of any entry of the graph.
\<close>

theorem cost_floor_and_base_distance:
  "(0 \<le> baseDistance edge \<and> (\<forall>x. crowdDensityMap e (eid edge) = Some x \<longrightarrow> 0 \<le> x)
      \<and> attenuationDefined d edge (seismicData e)
      \<longrightarrow> 0 \<le> edgeWeight d e edge \<and> 0.1 * baseDistance edge \<le> edgeWeight d e edge)
   \<and> map (\<lambda>kv. (fst kv, baseDistance (snd kv))) (updateEdgeWeights d e g)
       = map (\<lambda>kv. (fst kv, baseDistance (snd kv))) g
   \<and> map (\<lambda>kv. (fst kv, baseDistance (snd kv))) (penalizePreviousRoutes g routes)
       = map (\<lambda>kv. (fst kv, baseDistance (snd kv))) g
   \<and> (calculateSafeRoute d e loc sd hm = Some (res, e')
      \<longrightarrow> map (\<lambda>kv. (fst kv, baseDistance (snd kv))) (cityGraph e')
          = map (\<lambda>kv. (fst kv, baseDistance (snd kv))) (cityGraph e))"
proof -
  have 1: "0 \<le> baseDistance edge \<and> (\<forall>x. crowdDensityMap e (eid edge) = Some x \<longrightarrow> 0 \<le> x)
      \<and> attenuationDefined d edge (seismicData e)
      \<longrightarrow> 0 \<le> edgeWeight d e edge \<and> 0.1 * baseDistance edge \<le> edgeWeight d e edge"
    using edgeWeight_floor [of edge e d] by blast
  have 2: "map (\<lambda>kv. (fst kv, baseDistance (snd kv))) (updateEdgeWeights d e g)
       = map (\<lambda>kv. (fst kv, baseDistance (snd kv))) g"
    by (rule stripWeights_baseDistance) simp
  have 3: "map (\<lambda>kv. (fst kv, baseDistance (snd kv))) (penalizePreviousRoutes g routes)
       = map (\<lambda>kv. (fst kv, baseDistance (snd kv))) g"
    by (rule stripWeights_baseDistance) simp
  have 4: "calculateSafeRoute d e loc sd hm = Some (res, e')
      \<longrightarrow> map (\<lambda>kv. (fst kv, baseDistance (snd kv))) (cityGraph e')
          = map (\<lambda>kv. (fst kv, baseDistance (snd kv))) (cityGraph e)"
  proof
    assume "calculateSafeRoute d e loc sd hm = Some (res, e')"
    then have "sameBase e e'" by (rule calculateSafeRoute_sameBase)
    then have "stripWeights (cityGraph e') = stripWeights (cityGraph e)"
      by (simp add: sameBase_def)
    then show "map (\<lambda>kv. (fst kv, baseDistance (snd kv))) (cityGraph e')
          = map (\<lambda>kv. (fst kv, baseDistance (snd kv))) (cityGraph e)"
      by (rule stripWeights_baseDistance)
  qed
  from 1 2 3 4 show ?thesis by blast
qed

theorem cost_floor_and_base_distance_witness:
  "0 \<le> edgeWeight sampleDistance busyEngine (sampleEdge ''S-G'' 1 0)
   \<and> 0.1 * 1 \<le> edgeWeight sampleDistance busyEngine (sampleEdge ''S-G'' 1 0)
   \<and> map (\<lambda>kv. (fst kv, baseDistance (snd kv))) (cityGraph twoNodesAfter)
       = [(''S'', 0), (''G'', 0), (''S-G'', 1)]"
proof -
  have h1: "0 \<le> baseDistance (sampleEdge ''S-G'' 1 0)"
    by (simp add: sampleEdge_def)
  have h2: "\<forall>x. crowdDensityMap busyEngine (eid (sampleEdge ''S-G'' 1 0)) = Some x \<longrightarrow> 0 \<le> x"
    by (simp add: busyEngine_def sampleEdge_def)
  have h3: "attenuationDefined sampleDistance (sampleEdge ''S-G'' 1 0) (seismicData busyEngine)"
    by (simp add: busyEngine_def attenuationDefined_def sampleEdge_def sampleQuake_def
        sampleDistance_def)
  have b: "baseDistance (sampleEdge ''S-G'' 1 0) = 1"
    by (simp add: sampleEdge_def)
  have g: "map (\<lambda>kv. (fst kv, baseDistance (snd kv))) (cityGraph (sampleEngine twoNodes))
           = [(''S'', 0), (''G'', 0), (''S-G'', 1)]"
    by (simp add: sample_eval twoNodes_def)
  have 1: "0 \<le> edgeWeight sampleDistance busyEngine (sampleEdge ''S-G'' 1 0)
     \<and> 0.1 * baseDistance (sampleEdge ''S-G'' 1 0)
         \<le> edgeWeight sampleDistance busyEngine (sampleEdge ''S-G'' 1 0)"
    using cost_floor_and_base_distance [of "sampleEdge ''S-G'' 1 0" busyEngine sampleDistance]
      h1 h2 h3
    by blast
  have 2: "map (\<lambda>kv. (fst kv, baseDistance (snd kv))) (cityGraph twoNodesAfter)
       = map (\<lambda>kv. (fst kv, baseDistance (snd kv))) (cityGraph (sampleEngine twoNodes))"
    using cost_floor_and_base_distance [of "sampleEdge ''S-G'' 1 0" "sampleEngine twoNodes"
        sampleDistance twoNodes "[]" origin None Map.empty "Inr twoNodesResult" twoNodesAfter]
      twoNodes_run
    by blast
  from 1 2 b g show ?thesis by simp
qed

subsection \<open>No safe zone\<close>

text \<open>
  Claim C8. With an empty list of safe zones, \<^verbatim>\<open>calculateSafeRoute\<close> returns, for every
  origin and every input, and its result is the error \<^verbatim>\<open>No safe zones available\<close>: no
  other error and no route.
\<close>

theorem no_safe_zone_error:
  "safeZones e = [] \<Longrightarrow>
   map_option fst (calculateSafeRoute d e loc sd hm) = Some (Inl NoSafeZones)"
  by (simp add: calculateSafeRoute_def findNearestSafeZone_def Let_def)

theorem no_safe_zone_error_witness:
  "safeZones ((sampleEngine twoNodes)\<lparr>safeZones := []\<rparr>) = [] \<and>
   map_option fst (calculateSafeRoute sampleDistance ((sampleEngine twoNodes)\<lparr>safeZones := []\<rparr>)
     origin None Map.empty) = Some (Inl NoSafeZones)"
  using no_safe_zone_error [of "(sampleEngine twoNodes)\<lparr>safeZones := []\<rparr>" sampleDistance
      origin None Map.empty]
  by simp

subsection \<open>Repeated calculations\<close>

text \<open>
  Claim C9. Whatever calls of \<^verbatim>\<open>calculateSafeRoute\<close> were made on the engine before, a
  call with the same origin, seismic snapshot and hazard map on the same graph, safe zones,
  densities and structural data returns the same result: the same primary route, time, risk
  level and alternative routes.
\<close>

theorem repeated_calls_same_result:
  "runCalls d e calls = Some e' \<Longrightarrow>
   map_option fst (calculateSafeRoute d e' loc sd hm)
   = map_option fst (calculateSafeRoute d e loc sd hm)"
proof -
  have "runCalls d e calls = Some e' \<Longrightarrow> sameBase e e'"
  proof (induction calls arbitrary: e)
    case Nil
    then show ?case by simp
  next
    case (Cons c calls)
    obtain l s h where c: "c = (l, s, h)" by (cases c)
    from Cons.prems c obtain r e1 where
      1: "calculateSafeRoute d e l s h = Some (r, e1)" and 2: "runCalls d e1 calls = Some e'"
      by (auto split: option.splits)
    from calculateSafeRoute_sameBase [OF 1] Cons.IH [OF 2] show ?case
      by (rule sameBase_trans)
  qed
  moreover assume "runCalls d e calls = Some e'"
  ultimately have "sameBase e e'" .
  then show ?thesis by (simp add: calculateSafeRoute_base)
qed

theorem repeated_calls_same_result_witness:
  "runCalls sampleDistance (sampleEngine twoNodes) [(origin, None, Map.empty)] = Some twoNodesAfter
   \<and> map_option fst (calculateSafeRoute sampleDistance twoNodesAfter origin None Map.empty)
     = Some (Inr twoNodesResult)"
proof -
  have h: "runCalls sampleDistance (sampleEngine twoNodes) [(origin, None, Map.empty)]
           = Some twoNodesAfter"
    by (simp add: twoNodes_run)
  show ?thesis
    using repeated_calls_same_result [OF h, of origin None Map.empty] h twoNodes_run by simp
qed

subsection \<open>Evaluation of the failing sample\<close>


subsection \<open>Where the weights are written\<close>

text \<open>
  Claim C1, as stated, fails: the risk weights and the penalties are written to the graph of
  the engine itself. On the two joined nodes all weights are 0 before the call; the cost of
  the edge is 1/5; after the call the graph of the engine holds 8/5 for it, the cost
  doubled three times.
\<close>

theorem shared_weights_rewritten:
  "graphWeights (cityGraph (sampleEngine twoNodes)) = [0, 0, 0]
   \<and> edgeWeight sampleDistance (sampleEngine twoNodes) (sampleEdge ''S-G'' 1 0) = 1 / 5
   \<and> weightsAfter sampleDistance (sampleEngine twoNodes) origin None Map.empty
       = Some [1 / 10, 1 / 10, 8 / 5]"
proof -
  have 1: "graphWeights (cityGraph (sampleEngine twoNodes)) = [0, 0, 0]"
    by (simp add: graphWeights_def sample_eval twoNodes_def)
  have 2: "edgeWeight sampleDistance (sampleEngine twoNodes) (sampleEdge ''S-G'' 1 0) = 1 / 5"
    by (simp add: sample_eval calc_eval)
  have 3: "weightsAfter sampleDistance (sampleEngine twoNodes) origin None Map.empty
       = Some [1 / 10, 1 / 10, 8 / 5]"
    unfolding weightsAfter_def twoNodes_run
    by (simp add: twoNodesAfter_def graphWeights_def sample_eval)
  from 1 2 3 show ?thesis by simp
qed

text \<open>
  Claim C1, amended. A calculation writes its weights to the graph of the engine, and it
  starts by overwriting the weight of every entry from its own inputs. So two engines that
  differ only in the weights of their graph (and in the snapshot and hazard map of the last
  call) give the same result and are left in the same state, and a calculation leaves an
  engine that differs from the one it started on in nothing else.
\<close>

theorem calculation_ignores_left_weights:
  "(sameBase e e' \<longrightarrow> calculateSafeRoute d e' loc sd hm = calculateSafeRoute d e loc sd hm)
   \<and> (calculateSafeRoute d e loc sd hm = Some (res, e1) \<longrightarrow> sameBase e e1)"
  using calculateSafeRoute_base [of e e' d loc sd hm]
    calculateSafeRoute_sameBase [of d e loc sd hm res e1]
  by blast

theorem calculation_ignores_left_weights_witness:
  "sameBase (sampleEngine twoNodes) twoNodesAfter
   \<and> calculateSafeRoute sampleDistance twoNodesAfter zone None Map.empty
     = calculateSafeRoute sampleDistance (sampleEngine twoNodes) zone None Map.empty"
  using calculation_ignores_left_weights [of "sampleEngine twoNodes" twoNodesAfter sampleDistance
      origin None Map.empty "Inr twoNodesResult" twoNodesAfter]
    calculation_ignores_left_weights [of "sampleEngine twoNodes" twoNodesAfter sampleDistance
      zone None Map.empty]
    twoNodes_run
  by simp

subsection \<open>The search returns\<close>

text \<open>On a graph that holds every entry under its own id, the search loop closes a node of
  the graph in every round and \<^verbatim>\<open>reconstructPath\<close> follows \<^verbatim>\<open>cameFrom\<close> through nodes
  closed ever earlier: the search, and with it the whole calculation, returns.\<close>

lemma wfGraph_getNode: "wfGraph g \<Longrightarrow> getNode g k = Some x \<Longrightarrow> eid x = k \<and> k \<in> fst ` set g"
  by (force simp: wfGraph_def getNode_def dest!: map_of_SomeD)

lemma reconstructLoop_returns:
  assumes "wfGraph g" and "wf (cameRel came)"
  shows "\<exists>r. reconstructLoop g came c path = Some r"
proof -
  have "\<forall>(c::entry) path. eid c = k \<longrightarrow> (\<exists>r. reconstructLoop g came c path = Some r)" for k
    using assms(2)
  proof (induction k rule: wf_induct_rule)
    case (less k)
    show ?case
    proof (intro allI impI)
      fix c :: entry and path
      assume k: "eid c = k"
      show "\<exists>r. reconstructLoop g came c path = Some r"
      proof (cases "came (eid c)")
        case None
        then show ?thesis by (subst reconstructLoop.simps) simp
      next
        case (Some prev)
        show ?thesis
        proof (cases "getNode g prev")
          case None
          with Some show ?thesis by (subst reconstructLoop.simps) simp
        next
          case (Some c')
          from wfGraph_getNode [OF assms(1) Some] have e: "eid c' = prev" by simp
          from \<open>came (eid c) = Some prev\<close> k have "(prev, k) \<in> cameRel came"
            by (simp add: cameRel_def)
          from less.IH [OF this] e
          obtain r where "reconstructLoop g came c' (c' # path) = Some r" by blast
          with Some \<open>came (eid c) = Some prev\<close> show ?thesis
            by (subst reconstructLoop.simps) simp
        qed
      qed
    qed
  qed
  then show ?thesis by blast
qed

lemma pq_first_min_in: "pq_first_min m xs \<in> set (m # xs)"
  by (induction xs arbitrary: m) auto

lemma pq_pop_Some:
  "pq_pop q = Some (m, rest) \<Longrightarrow> m \<in> set q \<and> rest = remove1 m q"
  using pq_first_min_in
  by (cases q) (auto simp: pq_pop_def Let_def)

lemma relax_inv:
  assumes "wfGraph g" and "eid current \<in> closedSet st" and "searchInv g st"
    and "relax d g current goalNode nbs st = Inr st'"
  shows "searchInv g st' \<and> closedSet st' = closedSet st"
  using assms(2-4)
proof (induction nbs arbitrary: st)
  case Nil
  then show ?case by simp
next
  case (Cons nb nbs)
  show ?case
  proof (cases "nb \<in> closedSet st")
    case True
    with Cons.prems(3) have "relax d g current goalNode nbs st = Inr st'" by simp
    from Cons.IH [OF Cons.prems(1,2) this] show ?thesis .
  next
    case False
    from Cons.prems(3) False obtain edge where ed: "getEdge g (eid current) nb = Some edge"
      by (auto split: option.splits)
    from Cons.prems(3) False ed obtain gc where gc: "gScore st (eid current) = Some gc"
      by (auto split: option.splits)
    let ?t = "gc + weight edge"
    show ?thesis
    proof (cases "case gScore st nb of None \<Rightarrow> True | Some gn \<Rightarrow> ?t < gn")
      case False
      with Cons.prems(3) \<open>nb \<notin> closedSet st\<close> ed gc
      have "relax d g current goalNode nbs st = Inr st'" by (simp add: Let_def)
      from Cons.IH [OF Cons.prems(1,2) this] show ?thesis .
    next
      case True
      from Cons.prems(3) \<open>nb \<notin> closedSet st\<close> ed gc True
      obtain neighbor where nd: "getNode g nb = Some neighbor"
        by (auto simp: Let_def split: option.splits)
      let ?f = "?t + heuristic d neighbor goalNode"
      let ?st1 = "st\<lparr>cameFrom := (cameFrom st)(nb \<mapsto> eid current),
                      gScore := (gScore st)(nb \<mapsto> ?t),
                      fScore := (fScore st)(nb \<mapsto> ?f)\<rparr>"
      let ?st2 = "if \<not> pq_some_id (openSet ?st1) nb
                  then ?st1\<lparr>openSet := pq_push (openSet ?st1) (neighbor, ?f)\<rparr> else ?st1"
      from Cons.prems(3) \<open>nb \<notin> closedSet st\<close> ed gc True nd
      have r: "relax d g current goalNode nbs ?st2 = Inr st'"
        by (simp add: Let_def)
      from wfGraph_getNode [OF assms(1) nd] have en: "eid neighbor = nb" "nb \<in> fst ` set g"
        by simp_all
      have c2: "closedSet ?st2 = closedSet st" by simp
      have ne: "nb \<noteq> eid current" using \<open>nb \<notin> closedSet st\<close> Cons.prems(1) by auto
      have sub: "cameRel ((cameFrom st)(nb \<mapsto> eid current))
                 \<subseteq> insert (eid current, nb) (cameRel (cameFrom st))"
        by (auto simp: cameRel_def split: if_splits)
      have nodom: "\<And>k. (nb, k) \<notin> cameRel (cameFrom st)"
        using Cons.prems(2) \<open>nb \<notin> closedSet st\<close> by (auto simp: searchInv_def cameRel_def)
      have "(nb, eid current) \<notin> (cameRel (cameFrom st))\<^sup>*"
      proof
        assume "(nb, eid current) \<in> (cameRel (cameFrom st))\<^sup>*"
        then show False using ne nodom by (auto elim: converse_rtranclE)
      qed
      then have "wf (insert (eid current, nb) (cameRel (cameFrom st)))"
        using Cons.prems(2) by (simp add: wf_insert searchInv_def)
      then have w: "wf (cameRel ((cameFrom st)(nb \<mapsto> eid current)))"
        using sub by (rule wf_subset)
      have "searchInv g ?st2"
        using Cons.prems(1,2) w en \<open>nb \<notin> closedSet st\<close>
        by (auto simp: searchInv_def pq_push_def pq_some_id_def list_ex_iff)
      from Cons.IH [OF _ this r] Cons.prems(1) c2 show ?thesis by simp
    qed
  qed
qed

lemma aStarLoop_returns:
  assumes "wfGraph g"
  shows "searchInv g st \<Longrightarrow> \<exists>r. aStarLoop d g goalNode st = Some r"
proof (induction "card (fst ` set g - closedSet st)" arbitrary: st rule: less_induct)
  case less
  show ?case
  proof (cases "pq_pop (openSet st)")
    case None
    then show ?thesis by (subst aStarLoop.simps) simp
  next
    case (Some a)
    obtain item rest where a: "a = (item, rest)" by (cases a)
    from pq_pop_Some [OF Some [unfolded a]]
    have it: "item \<in> set (openSet st)" and rest: "rest = remove1 item (openSet st)" by simp_all
    let ?c = "fst item"
    show ?thesis
    proof (cases "eid ?c = eid goalNode")
      case True
      from less.prems have "wf (cameRel (cameFrom st))" by (simp add: searchInv_def)
      from reconstructLoop_returns [OF assms this]
      obtain r where "reconstructPath g (cameFrom st) ?c = Some r"
        unfolding reconstructPath_def by blast
      with Some a True show ?thesis by (subst aStarLoop.simps) (simp add: Let_def)
    next
      case False
      let ?st1 = "st\<lparr>openSet := rest, closedSet := insert (eid ?c) (closedSet st)\<rparr>"
      from less.prems it have ck: "eid ?c \<in> fst ` set g" and cc: "eid ?c \<notin> closedSet st"
        by (auto simp: searchInv_def)
      have d: "distinct (map (\<lambda>it. eid (fst it)) (openSet st))"
        using less.prems by (simp add: searchInv_def)
      from it obtain xs ys where sp: "openSet st = xs @ item # ys" "item \<notin> set xs"
        by (auto dest: split_list_first)
      then have rs: "rest = xs @ ys" using rest by (simp add: remove1_append)
      have other: "\<forall>x \<in> set rest. eid (fst x) \<noteq> eid ?c"
        using rs sp d by (fastforce simp: image_iff)
      have d1: "distinct (map (\<lambda>it. eid (fst it)) rest)"
        using rs sp d by simp
      have sub: "set rest \<subseteq> set (openSet st)"
        using rs sp by auto
      have inv1: "searchInv g ?st1"
        using less.prems other d1 sub
        by (auto simp: searchInv_def)
      show ?thesis
      proof (cases "relax d g ?c goalNode (neighbors ?c) ?st1")
        case (Inl err)
        with Some a False show ?thesis by (subst aStarLoop.simps) (simp add: Let_def)
      next
        case (Inr st')
        have "eid ?c \<in> closedSet ?st1" by simp
        from relax_inv [OF assms this inv1 Inr]
        have inv': "searchInv g st'" and cl: "closedSet st' = insert (eid ?c) (closedSet st)"
          by simp_all
        have "fst ` set g - closedSet st' \<subset> fst ` set g - closedSet st"
          using ck cc cl by auto
        then have "card (fst ` set g - closedSet st') < card (fst ` set g - closedSet st)"
          by (intro psubset_card_mono) simp_all
        from less.hyps [OF this inv']
        obtain r where "aStarLoop d g goalNode st' = Some r" by blast
        with Some a False Inr show ?thesis by (subst aStarLoop.simps) (simp add: Let_def)
      qed
    qed
  qed
qed


lemma foldl_nearerNode_in:
  "(case a of None \<Rightarrow> True | Some (n, m) \<Rightarrow> n \<in> S) \<Longrightarrow> snd ` set g \<subseteq> S \<Longrightarrow>
   (case foldl (nearerNode d loc) a g of None \<Rightarrow> True | Some (n, m) \<Rightarrow> n \<in> S)"
proof (induction g arbitrary: a)
  case Nil
  then show ?case by simp
next
  case (Cons kx g)
  have "case nearerNode d loc a kx of None \<Rightarrow> True | Some (n, m) \<Rightarrow> n \<in> S"
    using Cons.prems by (auto simp: nearerNode_def Let_def split: option.splits)
  from Cons.IH [OF this] Cons.prems(2) show ?case by simp
qed

lemma findNearestNode_in: "findNearestNode d g loc = Some n \<Longrightarrow> n \<in> snd ` set g"
  using foldl_nearerNode_in [where a = None and S = "snd ` set g" and g = g and d = d and loc = loc]
  by (auto simp: findNearestNode_def split: option.splits)

lemma aStarAlgorithm_returns:
  assumes "wfGraph (cityGraph e)"
  shows "\<exists>r. aStarAlgorithm d e start goal = Some r"
proof (cases "findNearestNode d (cityGraph e) start")
  case None
  then show ?thesis by (simp add: aStarAlgorithm_def)
next
  case (Some startNode)
  show ?thesis
  proof (cases "findNearestNode d (cityGraph e) goal")
    case None
    with Some show ?thesis by (simp add: aStarAlgorithm_def)
  next
    case (Some goalNode)
    from findNearestNode_in [OF \<open>findNearestNode d (cityGraph e) start = Some startNode\<close>] assms
    have "eid startNode \<in> fst ` set (cityGraph e)"
      by (force simp: wfGraph_def)
    then have "searchInv (cityGraph e)
       \<lparr>openSet = pq_push [] (startNode, heuristic d startNode goalNode),
        closedSet = {},
        gScore = [eid startNode \<mapsto> 0],
        fScore = [eid startNode \<mapsto> heuristic d startNode goalNode],
        cameFrom = Map.empty\<rparr>"
      by (simp add: searchInv_def pq_push_def cameRel_def)
    from aStarLoop_returns [OF assms this, of d goalNode]
    show ?thesis
      using Some \<open>findNearestNode d (cityGraph e) start = Some startNode\<close>
      by (simp add: aStarAlgorithm_def Let_def)
  qed
qed

lemma wfGraph_stripWeights: "wfGraph (stripWeights g) = wfGraph g"
proof -
  have "map fst (stripWeights g) = map fst g"
    by (simp add: stripWeights_def case_prod_beta)
  moreover have "(\<forall>kx \<in> set (stripWeights g). eid (snd kx) = fst kx)
                 = (\<forall>kx \<in> set g. eid (snd kx) = fst kx)"
    by (auto simp: stripWeights_def)
  ultimately show ?thesis by (simp add: wfGraph_def)
qed

lemma wfGraph_sameBase: "sameBase e e' \<Longrightarrow> wfGraph (cityGraph e) = wfGraph (cityGraph e')"
  using wfGraph_stripWeights [of "cityGraph e"] wfGraph_stripWeights [of "cityGraph e'"]
  by (simp add: sameBase_def)

lemma alternativesLoop_returns:
  "wfGraph (cityGraph e) \<Longrightarrow> \<exists>r. alternativesLoop d start goal p n e alts = Some r"
proof (induction n arbitrary: e alts)
  case 0
  then show ?case by simp
next
  case (Suc n)
  let ?e1 = "e\<lparr>cityGraph := penalizePreviousRoutes (cityGraph e) (p # alts)\<rparr>"
  have "sameBase e ?e1" by (simp add: sameBase_def)
  with Suc.prems have w: "wfGraph (cityGraph ?e1)" by (simp only: wfGraph_sameBase)
  from aStarAlgorithm_returns [OF w, of d start goal]
  obtain r where r: "aStarAlgorithm d ?e1 start goal = Some r" by blast
  show ?case
  proof (cases r)
    case (Inl err)
    with r show ?thesis by (simp add: Let_def)
  next
    case (Inr alt)
    from Suc.IH [OF w, of "alts @ [alt]"] r Inr show ?thesis by (simp add: Let_def)
  qed
qed

lemma calculateSafeRoute_returns:
  assumes "wfGraph (cityGraph e)"
  shows "\<exists>r. calculateSafeRoute d e loc sd hm = Some r"
proof -
  let ?e1 = "e\<lparr>seismicData := sd, hazardMap := hm\<rparr>"
  let ?e2 = "?e1\<lparr>cityGraph := updateEdgeWeights d ?e1 (cityGraph ?e1)\<rparr>"
  have "sameBase e ?e2" by (simp add: sameBase_def)
  with assms have w: "wfGraph (cityGraph ?e2)" by (simp only: wfGraph_sameBase)
  show ?thesis
  proof (cases "findNearestSafeZone d ?e2 loc")
    case None
    then show ?thesis by (simp add: calculateSafeRoute_def Let_def)
  next
    case (Some z)
    from aStarAlgorithm_returns [OF w, of d loc z]
    obtain r where r: "aStarAlgorithm d ?e2 loc z = Some r" by blast
    show ?thesis
    proof (cases r)
      case (Inl err)
      with Some r show ?thesis by (simp add: calculateSafeRoute_def Let_def)
    next
      case (Inr p)
      from alternativesLoop_returns [OF w, of d loc z p 2 "[]"]
      obtain al where "alternativesLoop d loc z p 2 ?e2 [] = Some al" by blast
      with Some r Inr show ?thesis
        by (cases al) (simp add: calculateSafeRoute_def generateAlternativeRoutes_def Let_def)
    qed
  qed
qed

lemma wfGraph_samples: "wfGraph fourNodes \<and> wfGraph twoNodes \<and> wfGraph apartNodes"
  by (simp add: wfGraph_def fourNodes_def twoNodes_def apartNodes_def sampleNode_def
      sampleEdge_def)

subsection \<open>The path the search returns\<close>

text \<open>
  Claim C4 fails on the four nodes. All weights are positive. The heuristic is the distance
  to \<open>G\<close> (1, 0.9, 0.5 and 0 for \<open>S\<close>, \<open>A\<close>, \<open>N\<close> and \<open>G\<close>), never above the remaining
  cost (3, 2, 1 and 0), since every edge weighs at least the distance it covers. The
  search returns the path \<open>S\<close>, \<open>G\<close> of cost 5, and the path \<open>S\<close>, \<open>A\<close>, \<open>N\<close>, \<open>G\<close> has cost
  3: \<open>N\<close> entered the open set with the priority 10.5 of its first path, and the better
  path found through \<open>A\<close> changed its \<^verbatim>\<open>gScore\<close> but not its place in the queue.
\<close>

theorem astar_returns_costlier_path:
  "map_option (map_sum id (map eid)) (aStarAlgorithm sampleDistance (sampleEngine fourNodes) origin zone)
     = Some (Inr [''S'', ''G''])
   \<and> pathCost fourNodes [''S'', ''G''] = Some 5
   \<and> pathCost fourNodes [''S'', ''A'', ''N'', ''G''] = Some 3
   \<and> edgeCoversDistance sampleDistance fourNodes ''S'' ''N''
   \<and> edgeCoversDistance sampleDistance fourNodes ''S'' ''A''
   \<and> edgeCoversDistance sampleDistance fourNodes ''A'' ''N''
   \<and> edgeCoversDistance sampleDistance fourNodes ''N'' ''G''
   \<and> edgeCoversDistance sampleDistance fourNodes ''S'' ''G''"
  by (simp add: search_eval sample_eval fourNodes_def edgeCoversDistance_def)

subsection \<open>Alternative routes\<close>

text \<open>
  Claim C6, as stated, fails: on the two joined nodes both alternative routes are the
  primary route again.
\<close>

theorem alternatives_repeat_primary:
  "routeIds (calculateSafeRoute sampleDistance (sampleEngine twoNodes) origin None Map.empty)
     = Some [''S'', ''G'']
   \<and> alternativeIds (calculateSafeRoute sampleDistance (sampleEngine twoNodes) origin None Map.empty)
     = Some [[''S'', ''G''], [''S'', ''G'']]"
  by (simp add: twoNodes_run routeIds_def alternativeIds_def twoNodesResult_def twoNodesRoute_def
      sampleNode_def)

lemma reconstructLoop_last_aux:
  assumes "reconstructLoop g came c path = Some y"
  shows "\<forall>p. y = Inr p \<longrightarrow> path \<noteq> [] \<longrightarrow> p \<noteq> [] \<and> last p = last path"
proof (rule reconstructLoop.raw_induct
    [where P = "\<lambda>g came c path y. \<forall>p. y = Inr p \<longrightarrow> path \<noteq> [] \<longrightarrow> p \<noteq> [] \<and> last p = last path",
      OF _ assms])
  fix rl g came current path y
  assume IH: "\<And>g came current path y. rl g came current path = Some y \<Longrightarrow>
            \<forall>p. y = Inr p \<longrightarrow> path \<noteq> [] \<longrightarrow> p \<noteq> [] \<and> last p = last path"
    and eq: "(case came (eid current) of
                None \<Rightarrow> Some (Inr path)
              | Some prev \<Rightarrow>
                  (case getNode g prev of
                     None \<Rightarrow> Some (Inl TypeError)
                   | Some c \<Rightarrow> rl g came c (c # path))) = Some y"
  show "\<forall>p. y = Inr p \<longrightarrow> path \<noteq> [] \<longrightarrow> p \<noteq> [] \<and> last p = last path"
  proof (cases "came (eid current)")
    case None
    with eq show ?thesis by auto
  next
    case (Some prev)
    show ?thesis
    proof (cases "getNode g prev")
      case None
      with Some eq show ?thesis by auto
    next
      case (Some c)
      with \<open>came (eid current) = Some prev\<close> eq
      have "rl g came c (c # path) = Some y" by simp
      from IH [OF this] show ?thesis by auto
    qed
  qed
qed

lemma reconstructPath_last:
  "reconstructPath g came c = Some (Inr p) \<Longrightarrow> p \<noteq> [] \<and> last p = c"
  using reconstructLoop_last_aux [of g came c "[c]" "Inr p"]
  by (simp add: reconstructPath_def)

lemma aStarLoop_last_aux:
  assumes "aStarLoop d g goalNode st = Some y"
  shows "\<forall>p. y = Inr p \<longrightarrow> p \<noteq> [] \<and> eid (last p) = eid goalNode"
proof (rule aStarLoop.raw_induct
    [where P = "\<lambda>d g goalNode st y. \<forall>p. y = Inr p \<longrightarrow> p \<noteq> [] \<and> eid (last p) = eid goalNode",
      OF _ assms])
  fix al d g goalNode st y
  assume IH: "\<And>d g goalNode st y. al d g goalNode st = Some y \<Longrightarrow>
            \<forall>p. y = Inr p \<longrightarrow> p \<noteq> [] \<and> eid (last p) = eid goalNode"
    and eq: "(case pq_pop (openSet st) of
                None \<Rightarrow> Some (Inl NoPathFound)
              | Some (item, rest) \<Rightarrow>
                  (let current = fst item in
                   if eid current = eid goalNode then reconstructPath g (cameFrom st) current
                   else
                     (case relax d g current goalNode (neighbors current)
                             (st\<lparr>openSet := rest,
                                 closedSet := insert (eid current) (closedSet st)\<rparr>) of
                        Inl err \<Rightarrow> Some (Inl err)
                      | Inr st' \<Rightarrow> al d g goalNode st'))) = Some y"
  show "\<forall>p. y = Inr p \<longrightarrow> p \<noteq> [] \<and> eid (last p) = eid goalNode"
  proof (cases "pq_pop (openSet st)")
    case None
    with eq show ?thesis by auto
  next
    case (Some a)
    obtain item rest where a: "a = (item, rest)" by (cases a)
    show ?thesis
    proof (cases "eid (fst item) = eid goalNode")
      case True
      with Some a eq have "reconstructPath g (cameFrom st) (fst item) = Some y"
        by (simp add: Let_def)
      with True show ?thesis by (auto dest: reconstructPath_last)
    next
      case False
      show ?thesis
      proof (cases "relax d g (fst item) goalNode (neighbors (fst item))
                      (st\<lparr>openSet := rest, closedSet := insert (eid (fst item)) (closedSet st)\<rparr>)")
        case (Inl err)
        with Some a False eq show ?thesis by (auto simp: Let_def)
      next
        case (Inr st')
        with Some a False eq have "al d g goalNode st' = Some y" by (simp add: Let_def)
        from IH [OF this] show ?thesis .
      qed
    qed
  qed
qed

lemma aStarAlgorithm_last:
  "aStarAlgorithm d e start goal = Some (Inr p) \<Longrightarrow>
   p \<noteq> [] \<and> goalId d (cityGraph e) goal = Some (eid (last p))"
  by (auto simp: aStarAlgorithm_def goalId_def Let_def split: option.splits
      dest!: aStarLoop_last_aux)

lemma nearerNode_strip:
  assumes "sameNode a b" and "x\<lparr>weight := 0\<rparr> = y\<lparr>weight := 0\<rparr>"
  shows "sameNode (nearerNode d loc a (k, x)) (nearerNode d loc b (k', y))"
proof -
  have f: "etype x = etype y" "lng x = lng y" "lat x = lat y"
    using arg_cong [OF assms(2), of etype] arg_cong [OF assms(2), of lng]
      arg_cong [OF assms(2), of lat] by simp_all
  show ?thesis
    using assms f
    by (auto simp: sameNode_def nearerNode_def Let_def split: option.splits)
qed

lemma foldl_nearerNode_strip:
  "stripWeights g = stripWeights g' \<Longrightarrow> sameNode a b \<Longrightarrow>
   sameNode (foldl (nearerNode d loc) a g) (foldl (nearerNode d loc) b g')"
proof (induction g arbitrary: g' a b)
  case Nil
  then show ?case by (simp add: stripWeights_def)
next
  case (Cons kx g)
  obtain k x where kx: "kx = (k, x)" by (cases kx)
  from Cons.prems(1) obtain ky g2 where g': "g' = ky # g2"
    by (cases g') (auto simp: stripWeights_def)
  obtain k' y where ky: "ky = (k', y)" by (cases ky)
  from Cons.prems(1) kx ky g' have xy: "x\<lparr>weight := 0\<rparr> = y\<lparr>weight := 0\<rparr>"
    and rest: "stripWeights g = stripWeights g2"
    by (simp_all add: stripWeights_def)
  have "sameNode (nearerNode d loc a (k, x)) (nearerNode d loc b (k', y))"
    by (rule nearerNode_strip [OF Cons.prems(2) xy])
  from Cons.IH [OF rest this] show ?case
    by (simp add: kx ky g')
qed

lemma goalId_strip:
  assumes "stripWeights g = stripWeights g'"
  shows "goalId d g loc = goalId d g' loc"
proof -
  have "sameNode (foldl (nearerNode d loc) None g) (foldl (nearerNode d loc) None g')"
    by (rule foldl_nearerNode_strip [OF assms]) (simp add: sameNode_def)
  then show ?thesis
    by (auto simp: goalId_def findNearestNode_def sameNode_def split: option.splits
        dest!: arg_cong [where f = eid])
qed


lemma alternativesLoop_ends:
  assumes "alternativesLoop d start goal p n e alts = Some (res, e')"
    and "\<forall>a \<in> set alts. a \<noteq> [] \<and> goalId d (cityGraph e) goal = Some (eid (last a))"
  shows "(\<forall>a \<in> set res. a \<noteq> [] \<and> goalId d (cityGraph e) goal = Some (eid (last a)))
         \<and> length res \<le> length alts + n"
  using assms
proof (induction n arbitrary: e alts)
  case 0
  then show ?case by simp
next
  case (Suc n)
  let ?e1 = "e\<lparr>cityGraph := penalizePreviousRoutes (cityGraph e) (p # alts)\<rparr>"
  have g: "goalId d (cityGraph ?e1) goal = goalId d (cityGraph e) goal"
    by (rule goalId_strip) simp
  show ?case
  proof (cases "aStarAlgorithm d ?e1 start goal")
    case None
    with Suc.prems(1) show ?thesis by (simp add: Let_def)
  next
    case (Some r)
    show ?thesis
    proof (cases r)
      case (Inl err)
      with Some Suc.prems(1) have "res = alts" by (auto simp: Let_def)
      with Suc.prems(2) show ?thesis by simp
    next
      case (Inr alt)
      with Some Suc.prems(1)
      have l: "alternativesLoop d start goal p n ?e1 (alts @ [alt]) = Some (res, e')"
        by (simp add: Let_def)
      from Some Inr have "aStarAlgorithm d ?e1 start goal = Some (Inr alt)" by simp
      then have "alt \<noteq> [] \<and> goalId d (cityGraph ?e1) goal = Some (eid (last alt))"
        by (rule aStarAlgorithm_last)
      with Suc.prems(2) g
      have "\<forall>a \<in> set (alts @ [alt]).
              a \<noteq> [] \<and> goalId d (cityGraph ?e1) goal = Some (eid (last a))"
        by auto
      from Suc.IH [OF l this] g show ?thesis by simp
    qed
  qed
qed

text \<open>
  Claim C6, amended. A calculation returns at most two alternative routes, and every one of
  them is a route that ends at the node where the primary route ends; an alternative route
  may be the primary route or an earlier alternative again.
\<close>

theorem alternatives_share_destination:
  "calculateSafeRoute d e loc sd hm = Some (Inr r, e') \<Longrightarrow>
   length (alternativeRoutes r) \<le> 2
   \<and> route r \<noteq> []
   \<and> (\<forall>a \<in> set (alternativeRoutes r). a \<noteq> [] \<and> eid (last a) = eid (last (route r)))"
proof -
  assume a: "calculateSafeRoute d e loc sd hm = Some (Inr r, e')"
  let ?e1 = "e\<lparr>seismicData := sd, hazardMap := hm\<rparr>"
  let ?e2 = "?e1\<lparr>cityGraph := updateEdgeWeights d ?e1 (cityGraph ?e1)\<rparr>"
  from a obtain z p where z: "findNearestSafeZone d ?e2 loc = Some z"
    and r: "aStarAlgorithm d ?e2 loc z = Some (Inr (route r))"
    and p: "aStarAlgorithm d ?e2 loc z = Some (Inr p)"
    and l: "alternativesLoop d loc z p 2 ?e2 [] = Some (alternativeRoutes r, e')"
    by (auto simp: calculateSafeRoute_def generateAlternativeRoutes_def Let_def
        split: option.splits sum.splits)
  from aStarAlgorithm_last [OF r]
  have g: "route r \<noteq> []" "goalId d (cityGraph ?e2) z = Some (eid (last (route r)))"
    by simp_all
  from alternativesLoop_ends [OF l] g show ?thesis by auto
qed

theorem alternatives_share_destination_witness:
  "length (alternativeRoutes twoNodesResult) \<le> 2
   \<and> route twoNodesResult \<noteq> []
   \<and> eid (last (hd (alternativeRoutes twoNodesResult))) = eid (last (route twoNodesResult))"
  using alternatives_share_destination [OF twoNodes_run]
  by (simp add: twoNodesResult_def)

subsection \<open>When a route is recalculated\<close>

text \<open>\<^verbatim>\<open>checkRouteRecalculation\<close> raises on every call, so the update handler answers every
  request for a known session with status 500 and the sweep ends at its first active
  session; neither reaches the recalculation.\<close>

lemma checkRouteRecalculation_raises: "checkRouteRecalculation srv now s = Inl TypeError"
  by (simp add: checkRouteRecalculation_def checkRouteForHazards_def)

lemma updateRoute_raises:
  assumes "map_of (activeSessions srv) sid = Some s0"
    and "reportAll rep reported (hazards srv) = Inr hz"
  shows "updateRoute rep d now srv sid loc reported =
     Some (Status500,
           srv\<lparr>activeSessions :=
                 updateSession sid (\<lambda>x. x\<lparr>currentLocation := loc, lastUpdate := now\<rparr>)
                   (activeSessions srv),
               hazards := hz,
               errorLog := errorLog srv @ [''Route update error:'']\<rparr>)"
  using assms by (simp add: updateRoute_def Let_def checkRouteRecalculation_raises)

lemma sweepLoop_raises:
  "sweepLoop d now eqd srv sessions =
     Some (if list_ex (\<lambda>ks. status (snd ks) = ''active'') sessions then Some TypeError else None,
           srv)"
  by (induction sessions) (auto simp: sweepSession_def checkRouteRecalculation_raises)

lemma twoNodes_quake_run:
  "routeIds (calculateSafeRoute sampleDistance (sampleEngine twoNodes) origin
      (Some \<lparr>features = Some [sampleQuake]\<rparr>) Map.empty) = Some [''S'', ''G'']"
  by (simp add: routeIds_def search_eval sample_eval calc_eval twoNodes_def sampleQuake_def
      earthquakeRisk_def calculateShindoIntensity_def)

lemma routeIds_SomeD:
  assumes "routeIds res = Some ids"
  obtains r eng where "res = Some (Inr r, eng)" and "map eid (route r) = ids"
  using assms by (auto simp: routeIds_def split: option.splits sum.splits)

text \<open>
  Claim C3 fails on the server with one active session on the two joined nodes. The cached
  snapshot holds an event of magnitude 6 that is one second old, and a calculation from the
  place of the session would give the route \<open>S\<close>, \<open>G\<close>, which the recalculation of the
  update handler and the recalculation of the sweep would store in the session. The decision
  raises a \<^verbatim>\<open>TypeError\<close> before it looks at the snapshot. The update handler answers with
  status 500: the session has its old route \<open>S\<close>, the engine is untouched and no event is
  sent. The sweep ends with the error and changes nothing. The socket handler writes the
  place and the time only.
\<close>

theorem recalculation_check_raises:
  "recentSignificant (cachedData (sampleServer twoNodes)) 2000
   \<and> routeIds (calculateSafeRoute sampleDistance (routeEngine (sampleServer twoNodes)) origin
        (cachedData (sampleServer twoNodes)) (hazards (sampleServer twoNodes)))
       = Some [''S'', ''G'']
   \<and> map_option (\<lambda>x. map (\<lambda>ks. ref_route (sess_route (snd ks))) (activeSessions (snd x)))
        (recalculateOnUpdate sampleDistance (sampleServer twoNodes) ''evac_1'' sampleSession origin)
       = Some [[''S'', ''G'']]
   \<and> map_option (\<lambda>x. map (\<lambda>ks. ref_route (sess_route (snd ks))) (activeSessions (snd x)))
        (recalculateOnSweep sampleDistance 2000 (Some \<lparr>features = Some [sampleQuake]\<rparr>)
           (sampleServer twoNodes) ''evac_1'' sampleSession)
       = Some [[''S'', ''G'']]
   \<and> ref_route (sess_route sampleSession) = [''S'']
   \<and> checkRouteRecalculation (sampleServer twoNodes) 2000 sampleSession = Inl TypeError
   \<and> updateRoute noReport sampleDistance 2000 (sampleServer twoNodes) ''evac_1'' origin []
       = Some (Status500,
               (sampleServer twoNodes)
                 \<lparr>activeSessions := [(''evac_1'', sampleSession\<lparr>lastUpdate := 2000\<rparr>)],
                  errorLog := [''Route update error:'']\<rparr>)
   \<and> checkAllRoutesForRecalculation sampleDistance 2000 (Some \<lparr>features = Some [sampleQuake]\<rparr>)
        (sampleServer twoNodes)
       = Some (Some TypeError, sampleServer twoNodes)
   \<and> locationUpdate 2000 (sampleServer twoNodes) (Some ''evac_1'') origin
       = (sampleServer twoNodes)
           \<lparr>activeSessions := [(''evac_1'', sampleSession\<lparr>lastUpdate := 2000\<rparr>)]\<rparr>"
proof -
  have 1: "recentSignificant (cachedData (sampleServer twoNodes)) 2000"
    by (simp add: recentSignificant_def sampleServer_def sampleQuake_def)
  have 2: "routeIds (calculateSafeRoute sampleDistance (routeEngine (sampleServer twoNodes)) origin
        (cachedData (sampleServer twoNodes)) (hazards (sampleServer twoNodes)))
       = Some [''S'', ''G'']"
    using twoNodes_quake_run by (simp add: sampleServer_def)
  obtain r eng where c: "calculateSafeRoute sampleDistance (sampleEngine twoNodes) origin
      (Some \<lparr>features = Some [sampleQuake]\<rparr>) Map.empty = Some (Inr r, eng)"
    and r: "map eid (route r) = [''S'', ''G'']"
    using twoNodes_quake_run by (rule routeIds_SomeD)
  have 8: "map_option (\<lambda>x. map (\<lambda>ks. ref_route (sess_route (snd ks))) (activeSessions (snd x)))
        (recalculateOnUpdate sampleDistance (sampleServer twoNodes) ''evac_1'' sampleSession origin)
       = Some [[''S'', ''G'']]"
    using c r by (simp add: recalculateOnUpdate_def sampleServer_def storeRoute_def)
  have 9: "map_option (\<lambda>x. map (\<lambda>ks. ref_route (sess_route (snd ks))) (activeSessions (snd x)))
        (recalculateOnSweep sampleDistance 2000 (Some \<lparr>features = Some [sampleQuake]\<rparr>)
           (sampleServer twoNodes) ''evac_1'' sampleSession)
       = Some [[''S'', ''G'']]"
    using c r by (simp add: recalculateOnSweep_def sampleServer_def storeRoute_def
        sampleSession_def)
  have 3: "ref_route (sess_route sampleSession) = [''S'']"
    by (simp add: sampleSession_def sampleRoute_def)
  have 4: "checkRouteRecalculation (sampleServer twoNodes) 2000 sampleSession = Inl TypeError"
    by (rule checkRouteRecalculation_raises)
  have 5: "updateRoute noReport sampleDistance 2000 (sampleServer twoNodes) ''evac_1'' origin []
       = Some (Status500,
               (sampleServer twoNodes)
                 \<lparr>activeSessions := [(''evac_1'', sampleSession\<lparr>lastUpdate := 2000\<rparr>)],
                  errorLog := [''Route update error:'']\<rparr>)"
    by (simp add: updateRoute_def Let_def checkRouteRecalculation_raises sampleServer_def
        sampleSession_def noReport_def origin_def)
  have 6: "checkAllRoutesForRecalculation sampleDistance 2000
        (Some \<lparr>features = Some [sampleQuake]\<rparr>) (sampleServer twoNodes)
       = Some (Some TypeError, sampleServer twoNodes)"
    by (simp add: checkAllRoutesForRecalculation_def sweepLoop_raises)
       (simp add: sampleServer_def sampleSession_def)
  have 7: "locationUpdate 2000 (sampleServer twoNodes) (Some ''evac_1'') origin
       = (sampleServer twoNodes)
           \<lparr>activeSessions := [(''evac_1'', sampleSession\<lparr>lastUpdate := 2000\<rparr>)]\<rparr>"
    by (simp add: locationUpdate_def sampleServer_def sampleSession_def origin_def)
  from 1 2 8 9 3 4 5 6 7 show ?thesis by simp
qed

subsection \<open>A recalculation that fails\<close>




end
